theory Spec2Isabelle
  imports Complex_Main "HOL-Library.Sublist" "HOL-Library.Log_Nat"
begin

section \<open>Strings of the host language\<close>

text \<open>
  Document text and every string field are lists of 8-bit code units. The helpers below
  are the string operations that analysis.js relies on: lower-casing, substring search,
  slicing with the clamping of \<^verbatim>\<open>String.prototype.slice\<close>, splitting, joining and the
  decimal rendering of an index inside a template string.
\<close>

definition code_unit :: "char \<Rightarrow> nat" where
  "code_unit c = of_char c"

definition toLowerChar :: "char \<Rightarrow> char" where
  "toLowerChar c =
     (let n = code_unit c in
      if (65 \<le> n \<and> n \<le> 90) \<or> (192 \<le> n \<and> n \<le> 222 \<and> n \<noteq> 215)
      then char_of (n + 32) else c)"

definition toLowerCase :: "string \<Rightarrow> string" where
  "toLowerCase s = map toLowerChar s"

fun starts_with :: "string \<Rightarrow> string \<Rightarrow> bool" where
  "starts_with s [] = True"
| "starts_with [] (p # ps) = False"
| "starts_with (c # cs) (p # ps) = (c = p \<and> starts_with cs ps)"

fun includes_str :: "string \<Rightarrow> string \<Rightarrow> bool" where
  "includes_str [] needle = (needle = [])"
| "includes_str (c # cs) needle = (starts_with (c # cs) needle \<or> includes_str cs needle)"

definition js_slice :: "'a list \<Rightarrow> int \<Rightarrow> int \<Rightarrow> 'a list" where
  "js_slice s b e =
     (let len = int (length s);
          start = (if b < 0 then max (len + b) 0 else min b len);
          fin = (if e < 0 then max (len + e) 0 else min e len)
      in take (nat (fin - start)) (drop (nat start) s))"

fun split_on :: "char \<Rightarrow> string \<Rightarrow> string list" where
  "split_on d [] = [[]]"
| "split_on d (c # cs) =
     (if c = d then [] # split_on d cs
      else (let r = split_on d cs in (c # hd r) # tl r))"

fun join :: "string \<Rightarrow> string list \<Rightarrow> string" where
  "join sep [] = []"
| "join sep [x] = x"
| "join sep (x # y # ys) = x @ sep @ join sep (y # ys)"

definition digit :: "nat \<Rightarrow> char" where
  "digit n = ''0123456789'' ! n"

fun decimal :: "nat \<Rightarrow> string" where
  "decimal n = (if n < 10 then [digit n] else decimal (n div 10) @ [digit (n mod 10)])"

declare decimal.simps [simp del]

section \<open>Regular expressions\<close>

text \<open>
  The patterns of analysis.js use literals, alternation, grouping, the quantifiers
  \<^verbatim>\<open>* + ? *?\<close> and bounded repetition, the classes \<^verbatim>\<open>. \s \d [\s\S] [A-Za-z]\<close>, the
  assertion \<^verbatim>\<open>\b\<close> and capture groups. \<open>rx_match\<close> is a backtracking matcher: it
  returns the states reachable by matching a pattern from a state, in the order in which a
  backtracking engine tries them (a greedy quantifier tries the longer match first, a lazy
  one the shorter), so the head of the list is the match the engine reports. An iteration
  of a quantifier that consumes nothing is rejected, as the language standard prescribes.
  With the flag \<^verbatim>\<open>i\<close> two code units match when their canonical forms agree; a code unit
  outside ASCII is its own canonical form.
\<close>

definition canonicalize :: "bool \<Rightarrow> char \<Rightarrow> char" where
  "canonicalize ignoreCase c =
     (let n = code_unit c in
      if ignoreCase \<and> 97 \<le> n \<and> n \<le> 122 then char_of (n - 32) else c)"

datatype cls = AnyChar | Dot | Space | Digit | Letter

fun in_cls :: "cls \<Rightarrow> char \<Rightarrow> bool" where
  "in_cls AnyChar c = True"
| "in_cls Dot c = (code_unit c \<noteq> 10 \<and> code_unit c \<noteq> 13)"
| "in_cls Space c = (code_unit c \<in> {9, 10, 11, 12, 13, 32, 160})"
| "in_cls Digit c = (48 \<le> code_unit c \<and> code_unit c \<le> 57)"
| "in_cls Letter c =
     ((65 \<le> code_unit c \<and> code_unit c \<le> 90) \<or> (97 \<le> code_unit c \<and> code_unit c \<le> 122))"

definition is_word_char :: "char \<Rightarrow> bool" where
  "is_word_char c = (in_cls Letter c \<or> in_cls Digit c \<or> code_unit c = 95)"

datatype rx =
    Lit string
  | Cls cls
  | WordB
  | Seq rx rx
  | Alt rx rx
  | Opt rx
  | Star rx
  | Lazy rx
  | Cap nat rx

record mstate =
  prev :: "char option"
  rest :: string
  caps :: "(nat \<times> string) list"

fun lit_match :: "bool \<Rightarrow> string \<Rightarrow> mstate \<Rightarrow> mstate list" where
  "lit_match ic [] s = [s]"
| "lit_match ic (p # ps) s =
     (case rest s of
        [] \<Rightarrow> []
      | c # cs \<Rightarrow>
          if canonicalize ic p = canonicalize ic c
          then lit_match ic ps (s\<lparr>prev := Some c, rest := cs\<rparr>)
          else [])"

definition progress :: "mstate \<Rightarrow> mstate \<Rightarrow> bool" where
  "progress s t = (length (rest t) < length (rest s))"

definition at_boundary :: "mstate \<Rightarrow> bool" where
  "at_boundary s =
     ((case prev s of None \<Rightarrow> False | Some c \<Rightarrow> is_word_char c) \<noteq>
      (case rest s of [] \<Rightarrow> False | c # _ \<Rightarrow> is_word_char c))"

definition consumed :: "mstate \<Rightarrow> mstate \<Rightarrow> string" where
  "consumed s t = take (length (rest s) - length (rest t)) (rest s)"

function (sequential) rx_match :: "bool \<Rightarrow> rx \<Rightarrow> mstate \<Rightarrow> mstate list" where
  "rx_match ic (Lit ps) s = lit_match ic ps s"
| "rx_match ic (Cls k) s =
     (case rest s of
        [] \<Rightarrow> []
      | c # cs \<Rightarrow> if in_cls k c then [s\<lparr>prev := Some c, rest := cs\<rparr>] else [])"
| "rx_match ic WordB s = (if at_boundary s then [s] else [])"
| "rx_match ic (Seq a b) s = concat (map (rx_match ic b) (rx_match ic a s))"
| "rx_match ic (Alt a b) s = rx_match ic a s @ rx_match ic b s"
| "rx_match ic (Opt a) s = filter (progress s) (rx_match ic a s) @ [s]"
| "rx_match ic (Star a) s =
     concat (map (rx_match ic (Star a)) (filter (progress s) (rx_match ic a s))) @ [s]"
| "rx_match ic (Lazy a) s =
     s # concat (map (rx_match ic (Lazy a)) (filter (progress s) (rx_match ic a s)))"
| "rx_match ic (Cap n a) s =
     map (\<lambda>t. t\<lparr>caps := (n, consumed s t) # caps t\<rparr>) (rx_match ic a s)"
  by pat_completeness auto
termination
  by (relation "measures [\<lambda>(ic, r, s). size r, \<lambda>(ic, r, s). length (rest s)]")
     (auto simp: progress_def)

text \<open>
  \<open>exec_from\<close> is the search for the leftmost start index; its result is the matched
  text together with the capture groups, or \<open>None\<close> for JavaScript's \<^verbatim>\<open>null\<close>.
\<close>

fun exec_from :: "bool \<Rightarrow> rx \<Rightarrow> char option \<Rightarrow> string \<Rightarrow> (string \<times> (nat \<times> string) list) option" where
  "exec_from ic r p [] =
     (case rx_match ic r \<lparr>prev = p, rest = [], caps = []\<rparr> of
        t # _ \<Rightarrow> Some ([], caps t)
      | [] \<Rightarrow> None)"
| "exec_from ic r p (c # cs) =
     (case rx_match ic r \<lparr>prev = p, rest = c # cs, caps = []\<rparr> of
        t # _ \<Rightarrow> Some (consumed \<lparr>prev = p, rest = c # cs, caps = []\<rparr> t, caps t)
      | [] \<Rightarrow> exec_from ic r (Some c) cs)"

definition regex_match :: "bool \<Rightarrow> rx \<Rightarrow> string \<Rightarrow> (string \<times> (nat \<times> string) list) option" where
  "regex_match ic r text = exec_from ic r None text"

definition regex_test :: "bool \<Rightarrow> rx \<Rightarrow> string \<Rightarrow> bool" where
  "regex_test ic r text = (regex_match ic r text \<noteq> None)"

definition capture :: "nat \<Rightarrow> (string \<times> (nat \<times> string) list) \<Rightarrow> string option" where
  "capture n m = (if n = 0 then Some (fst m) else map_of (snd m) n)"

fun alts :: "rx list \<Rightarrow> rx" where
  "alts [] = Lit []"
| "alts [r] = r"
| "alts (r # rs) = Alt r (alts rs)"

fun seqs :: "rx list \<Rightarrow> rx" where
  "seqs [] = Lit []"
| "seqs [r] = r"
| "seqs (r # rs) = Seq r (seqs rs)"

definition Plus :: "rx \<Rightarrow> rx" where
  "Plus r = Seq r (Star r)"

fun times :: "nat \<Rightarrow> rx \<Rightarrow> rx" where
  "times 0 r = Lit []"
| "times (Suc n) r = Seq r (times n r)"

fun at_most :: "nat \<Rightarrow> rx \<Rightarrow> rx" where
  "at_most 0 r = Lit []"
| "at_most (Suc n) r = Opt (Seq r (at_most n r))"

definition between :: "nat \<Rightarrow> nat \<Rightarrow> rx \<Rightarrow> rx" where
  "between m n r = Seq (times m r) (at_most (n - m) r)"

section \<open>Findings\<close>

text \<open>
  A finding is the object the model is prompted to emit and the heuristics build with
  \<open>mk\<close>. Every property may be absent (\<open>None\<close> is JavaScript's \<^verbatim>\<open>undefined\<close>);
  when present it has the type the prompt gives it. The property \<^verbatim>\<open>id\<close> is the field
  \<open>id_field\<close>.
\<close>

record finding =
  id_field :: "string option"
  theme :: "string option"
  title :: "string option"
  status :: "string option"
  severity :: "string option"
  evidence :: "string option"
  impact :: "string option"
  recommendation :: "string option"
  references :: "string list option"
  confidence :: "real option"

text \<open>
  \<^verbatim>\<open>Math.random().toString(36).slice(2, 8)\<close> is drawn from a supply \<open>rnd\<close>: the
  \<open>k\<close>-th draw of a run is \<open>rnd k\<close>. Functions that draw take the number of draws made
  so far and return it updated.
\<close>

definition mk :: "string \<Rightarrow> string \<Rightarrow> string \<Rightarrow> string \<Rightarrow> string \<Rightarrow> string \<Rightarrow> string \<Rightarrow> string \<Rightarrow>
    string list \<Rightarrow> real \<Rightarrow> finding" where
  "mk random theme' title' status' severity' evidence' impact' recommendation' references' confidence' =
     \<lparr>id_field = Some (''R-'' @ random), theme = Some theme', title = Some title',
      status = Some status', severity = Some severity', evidence = Some evidence',
      impact = Some impact', recommendation = Some recommendation',
      references = Some references', confidence = Some confidence'\<rparr>"

text \<open>\<open>push_mk\<close> is \<^verbatim>\<open>out.push(mk(...))\<close>: one draw, one finding appended.\<close>

definition push_mk :: "(nat \<Rightarrow> string) \<Rightarrow> finding list \<times> nat \<Rightarrow> string \<Rightarrow> string \<Rightarrow> string \<Rightarrow> string \<Rightarrow>
    string \<Rightarrow> string \<Rightarrow> string \<Rightarrow> string list \<Rightarrow> real \<Rightarrow> finding list \<times> nat" where
  "push_mk rnd g th ti st sv ev im rc rf cf =
     (fst g @ [mk (rnd (snd g)) th ti st sv ev im rc rf cf], Suc (snd g))"

section \<open>The heuristic rule engine\<close>

definition T :: "string \<Rightarrow> rx \<Rightarrow> bool" where
  "T text r = regex_test True r text"

definition quoted :: "string \<Rightarrow> string" where
  "quoted s = [CHR 0x22] @ s @ [CHR 0x22]"

definition apostrophe :: string where
  "apostrophe = [CHR 0x27]"

definition privacy_rules :: "(nat \<Rightarrow> string) \<Rightarrow> string \<Rightarrow> finding list \<times> nat \<Rightarrow> finding list \<times> nat" where
  "privacy_rules rnd text g0 =
     (let g1 = (if \<not> T text (seqs [WordB, Lit ''privacy policy'', WordB]) \<and>
                   \<not> T text (seqs [Lit ''how we manage'', Star (Cls Dot), Lit ''personal information''])
                then push_mk rnd g0 ''privacy_app'' ''APP 1 transparency'' ''undisclosed'' ''medium''
                  ''Not found''
                  ''Lack of clear statement on how personal information is managed (APP 1).''
                  ''Publish an APP 1-compliant privacy policy covering purpose, types collected, use/disclosure, access/correction, complaints and contact.''
                  [''APP 1''] 0.6
                else g0);
          g2 = (if \<not> T text (Lit ''we collect'') \<or> \<not> T text (Lit ''why we collect'') \<or>
                   \<not> T text (Lit ''how to contact'')
                then push_mk rnd g1 ''privacy_app'' ''APP 5 collection notice'' ''undisclosed'' ''high''
                  ''Details of collection notice not clearly present.''
                  ''APP 5 notice may be incomplete or absent.''
                  ''Add an APP 5 notice with purposes, fields, disclosures, cross-border, contact.''
                  [''APP 5''] 0.7
                else g1);
          g3 = (if \<not> T text (Lit ''overseas'') \<and> \<not> T text (Lit ''outside australia'') \<and>
                   \<not> T text (Lit ''cross-border'')
                then push_mk rnd g2 ''privacy_app'' ''APP 8 cross-border disclosures'' ''undisclosed'' ''medium''
                  ''No explicit mention of disclosures overseas.''
                  ''If using offshore vendors/cloud, APP 8 accountability may apply.''
                  ''Disclose countries/types of overseas recipients or state none occur.''
                  [''APP 8''] 0.6
                else g2);
          g4 = (if \<not> T text (Lit ''security'') \<or>
                   \<not> (T text (Lit ''encryption'') \<or> T text (Lit ''mfa'') \<or> T text (Lit ''access control'') \<or>
                      T text (Lit ''backup'') \<or> T text (Lit ''patch''))
                then push_mk rnd g3 ''privacy_app'' ''APP 11 security of personal information'' ''undisclosed'' ''high''
                  ''Security controls not described.''
                  ''Absence of described measures increases risk.''
                  ''Document encryption/MFA/least privilege/backups/patch SLAs.''
                  [''APP 11'', ''ACSC Essential Eight''] 0.7
                else g3);
          g5 = (if \<not> (T text (Lit ''access your information'') \<or> T text (Lit ''request access''))
                then push_mk rnd g4 ''privacy_app'' ''APP 12 access to personal information'' ''undisclosed'' ''medium''
                  ''Access process not described.''
                  ''Individuals may not know how to obtain info.''
                  ''Add a process for access requests, ID, timeframes, charges.''
                  [''APP 12''] 0.6
                else g4);
          g6 = (if \<not> (T text (Lit ''correction'') \<or> T text (Lit ''correct your information''))
                then push_mk rnd g5 ''privacy_app'' ''APP 13 correction of personal information'' ''undisclosed'' ''medium''
                  ''Correction process not described.''
                  ''Individuals may not know how to correct inaccuracies.''
                  ''Describe correction process, acknowledgement, timeframes.''
                  [''APP 13''] 0.6
                else g5);
          g7 = (if \<not> (T text (Lit ''retention'') \<or> T text (Lit ''retain'') \<or> T text (Lit ''delete'') \<or>
                      T text (Lit ''deletion'') \<or> T text (Lit ''destroy''))
                then push_mk rnd g6 ''privacy_app'' ''Retention & deletion'' ''undisclosed'' ''medium''
                  ''No retention/deletion commitments detected.''
                  ''Data kept without defined periods increases exposure.''
                  ''State retention periods, secure destruction, triggers.''
                  [''APP 11''] 0.6
                else g6)
      in g7)"

definition e8Signals :: "(string \<times> rx) list" where
  "e8Signals =
     [(''Patch applications'',
         seqs [Alt (Lit ''patch'') (Lit ''update''), Star (Cls Dot), Alt (Lit ''application'') (Lit ''app'')]),
      (''Patch operating systems'',
         seqs [Alt (Lit ''patch'') (Lit ''update''), Star (Cls Dot), Alt (Lit ''operating system'') (Lit ''os'')]),
      (''Configure Microsoft Office macro settings'', Lit ''macro''),
      (''User application hardening'', alts [Lit ''hardening'', Lit ''blocklist'', Lit ''disable'']),
      (''Restrict administrative privileges'',
         alts [seqs [Lit ''admin'', Opt (Lit ''istrative''), Plus (Cls Space), Lit ''privilege''],
               Lit ''least privilege'', Lit ''rbac'']),
      (''Multi-factor authentication'',
         alts [seqs [Lit ''multi'', Opt (Lit ''-''), Lit ''factor''], Lit ''mfa'', Lit ''2fa'']),
      (''Regular backups'', Lit ''backup''),
      (''Incident response'', alts [Lit ''incident'', Lit ''breach notification'', Lit ''respond''])]"

text \<open>
  The loop over \<open>e8Signals\<close>: a signal that is found sets \<^verbatim>\<open>anySignalFound\<close> and
  continues; a signal that is not found adds a finding of low severity.
\<close>

fun e8_loop :: "(nat \<Rightarrow> string) \<Rightarrow> string \<Rightarrow> (string \<times> rx) list \<Rightarrow> (finding list \<times> nat) \<times> bool \<Rightarrow>
    (finding list \<times> nat) \<times> bool" where
  "e8_loop rnd text [] st = st"
| "e8_loop rnd text ((name, r) # signals) (g, anySignalFound) =
     (if regex_test True r text then e8_loop rnd text signals (g, True)
      else e8_loop rnd text signals
        (push_mk rnd g ''security_e8'' (''Essential Eight: '' @ name) ''undisclosed'' ''low''
           ''Signal not detected in document.''
           (''No mention of '' @ quoted name @ '' which is recommended ACSC control.'')
           (''Publish statement of posture for '' @ quoted name @ ''.'')
           [''ACSC Essential Eight''] 0.55,
         anySignalFound))"

definition e8_rules :: "(nat \<Rightarrow> string) \<Rightarrow> string \<Rightarrow> finding list \<times> nat \<Rightarrow> finding list \<times> nat" where
  "e8_rules rnd text g0 =
     (let (g1, anySignalFound) = e8_loop rnd text e8Signals (g0, False)
      in if \<not> anySignalFound
         then push_mk rnd g1 ''security_e8'' ''Essential Eight posture'' ''undisclosed'' ''medium''
           ''No ACSC Essential Eight signals detected.''
           ''Security posture unclear.''
           ''Publish high-level summary mapping to Essential Eight maturity.''
           [''ACSC Essential Eight''] 0.55
         else g1)"

definition cdss_rules :: "(nat \<Rightarrow> string) \<Rightarrow> string \<Rightarrow> finding list \<times> nat \<Rightarrow> finding list \<times> nat" where
  "cdss_rules rnd text g0 =
     (let g1 = (if \<not> T text (seqs [Lit ''not'', Star (Cls Dot), Lit ''diagnos'']) \<and>
                   \<not> T text (Lit ''does not diagnos'') \<and> \<not> T text (Lit ''not intended to diagnose'')
                then push_mk rnd g0 ''cdss_exemption'' ''Non-diagnostic disclaimer'' ''undisclosed'' ''high''
                  ''No explicit disclaimer found that outputs are not diagnostic.''
                  ''Without this, TGA may view as regulated medical device.''
                  (''Add disclaimer: '' @ apostrophe @
                   ''This software does not provide a medical diagnosis and must not replace professional judgement.'' @
                   apostrophe)
                  [''TGA CDSS Exemption Guidance''] 0.75
                else g0);
          g2 = (if \<not> T text (Lit ''clinician'') \<and> \<not> T text (Lit ''health professional'') \<and>
                   \<not> T text (Lit ''doctor review'')
                then push_mk rnd g1 ''cdss_exemption'' ''Clinician oversight'' ''undisclosed'' ''high''
                  ''No mention that outputs require clinician review/approval.''
                  ''CDSS exemption requires clinician retains decision-making.''
                  (''State: '' @ apostrophe @
                   ''Outputs are intended for use by qualified healthcare professionals, who retain responsibility for all decisions.'' @
                   apostrophe)
                  [''TGA CDSS Exemption''] 0.75
                else g1);
          g3 = (if \<not> T text (Lit ''transparent'') \<and> \<not> T text (Lit ''rules'') \<and>
                   \<not> T text (Lit ''guideline'') \<and> \<not> T text (Lit ''threshold'')
                then push_mk rnd g2 ''cdss_exemption'' ''Transparency of logic'' ''undisclosed'' ''medium''
                  ''No mention that rules/thresholds are visible.''
                  ''Opaque logic risks classification as regulated device.''
                  ''Add language that clinicians can see rules, thresholds, references.''
                  [''TGA CDSS Exemption''] 0.65
                else g2);
          g4 = (if T text (Lit ''patient'') \<and> \<not> T text (Lit ''educational'') \<and>
                   \<not> T text (Lit ''read-only'') \<and> \<not> T text (Lit ''non-directive'')
                then push_mk rnd g3 ''cdss_exemption'' ''Patient-facing mode disclaimer'' ''undisclosed'' ''medium''
                  ''Mentions patient access without clarifying outputs are educational/read-only.''
                  ''Patient features may trigger regulation unless limited.''
                  ''Clarify patient mode only shows clinician-approved educational summaries.''
                  [''TGA CDSS Exemption''] 0.6
                else g3);
          g5 = (if \<not> T text (Lit ''not intended'') \<and> \<not> T text (Lit ''not for triage'') \<and>
                   \<not> T text (Lit ''not for emergency'')
                then push_mk rnd g4 ''cdss_exemption'' ''Scope limitations'' ''undisclosed'' ''medium''
                  ''No explicit limitation against triage/prediction/therapeutic claims.''
                  ''Absence of scope limitation could classify as device.''
                  (''Add: '' @ apostrophe @
                   ''Not intended for triage, emergency use, disease prediction, or therapeutic purposes.'' @
                   apostrophe)
                  [''TGA CDSS Exemption''] 0.6
                else g4)
      in g5)"

definition heuristicsAU :: "(nat \<Rightarrow> string) \<Rightarrow> nat \<Rightarrow> string \<Rightarrow> finding list \<times> nat" where
  "heuristicsAU rnd k text = cdss_rules rnd text (e8_rules rnd text (privacy_rules rnd text ([], k)))"

section \<open>Gap filling\<close>

text \<open>
  \<open>str_or\<close> is \<^verbatim>\<open>s || d\<close> on a string-valued property: an absent property and the empty
  string are both falsy. \<open>template_part\<close> is the interpolation of a property into a template
  string, where an absent property prints as \<^verbatim>\<open>undefined\<close>.
\<close>

definition str_or :: "string option \<Rightarrow> string \<Rightarrow> string" where
  "str_or v d = (case v of None \<Rightarrow> d | Some s \<Rightarrow> if s = [] then d else s)"

definition template_part :: "string option \<Rightarrow> string" where
  "template_part v = (case v of None \<Rightarrow> ''undefined'' | Some s \<Rightarrow> s)"

definition have_needle :: "finding list \<Rightarrow> string \<Rightarrow> bool" where
  "have_needle fs needle =
     list_ex (\<lambda>f. includes_str (toLowerCase (template_part (theme f) @ '':'' @ template_part (title f))) needle) fs"

definition add :: "finding list \<Rightarrow> finding \<Rightarrow> finding list" where
  "add fs f = (if \<not> list_ex (\<lambda>x. str_or (title x) [] = str_or (title f) []) fs then fs @ [f] else fs)"

text \<open>\<open>add_mk\<close> is \<^verbatim>\<open>add(mk(...))\<close>: the draw is made whether or not the finding is kept.\<close>

definition add_mk :: "(nat \<Rightarrow> string) \<Rightarrow> finding list \<times> nat \<Rightarrow> string \<Rightarrow> string \<Rightarrow> string \<Rightarrow> string \<Rightarrow>
    string \<Rightarrow> string \<Rightarrow> string \<Rightarrow> string list \<Rightarrow> real \<Rightarrow> finding list \<times> nat" where
  "add_mk rnd g th ti st sv ev im rc rf cf =
     (add (fst g) (mk (rnd (snd g)) th ti st sv ev im rc rf cf), Suc (snd g))"

definition retention_rx :: rx where
  "retention_rx =
     alts [Lit ''retention'', Lit ''retain'', Lit ''delete'', Lit ''destroy'',
           seqs [Lit ''de'', Opt (Lit ''-''), Lit ''identify'']]"

definition ensureMinimumAU :: "(nat \<Rightarrow> string) \<Rightarrow> nat \<Rightarrow> finding list \<Rightarrow> string \<Rightarrow> finding list \<times> nat" where
  "ensureMinimumAU rnd k fs text =
     (let g0 = (fs, k);
          g1 = (if \<not> have_needle (fst g0) ''app 5''
                then add_mk rnd g0 ''privacy_app'' ''APP 5 collection notice'' ''undisclosed'' ''high'' ''Not found''
                  ''APP 5 notice may be incomplete or absent.'' ''Add an APP 5 notice at collection.'' [''APP 5''] 0.6
                else g0);
          g2 = (if \<not> have_needle (fst g1) ''app 11''
                then add_mk rnd g1 ''privacy_app'' ''APP 11 security of personal information'' ''undisclosed'' ''high''
                  ''Not found'' ''Security controls not described.''
                  ''Document encryption/MFA/least-privilege/backups/patch SLAs.'' [''APP 11''] 0.65
                else g1);
          g3 = (if \<not> have_needle (fst g2) ''access to personal''
                then add_mk rnd g2 ''privacy_app'' ''APP 12 access to personal information'' ''undisclosed'' ''medium''
                  ''Not found'' ''Access process not described.''
                  ''Describe how individuals can request access and expected timeframes.'' [''APP 12''] 0.55
                else g2);
          g4 = (if \<not> have_needle (fst g3) ''correction''
                then add_mk rnd g3 ''privacy_app'' ''APP 13 correction of personal information'' ''undisclosed'' ''medium''
                  ''Not found'' ''Correction process not described.''
                  ''Explain how corrections are handled and acknowledged.'' [''APP 13''] 0.55
                else g3);
          g5 = (if \<not> regex_test True retention_rx text
                then add_mk rnd g4 ''privacy_app'' ''Retention & deletion'' ''undisclosed'' ''medium'' ''Not found''
                  ''No retention/deletion commitments detected.''
                  ''State retention periods and secure deletion/de-identification triggers.'' [''APP 11''] 0.55
                else g4)
      in g5)"

section \<open>Values and objects of the host language\<close>

text \<open>
  The scoring code reads tables written as object literals and counts in an object that
  starts empty. A property read follows the prototype chain: a key that is not an own
  property but names a member of \<^verbatim>\<open>Object.prototype\<close> yields that member (\<open>Inherited\<close>:
  a function, or the prototype object itself), any other key yields \<open>Undefined\<close>.
  \<open>Garbled\<close> is the string that \<^verbatim>\<open>+\<close> builds when an operand is not a number; such a string
  contains the printed form of an inherited member, so its numeric value is \<open>NotANumber\<close>.
\<close>

datatype jsval = Undefined | Number int | NotANumber | Garbled | Inherited

definition objectPrototypeKeys :: "string list" where
  "objectPrototypeKeys =
     [''constructor'', ''__defineGetter__'', ''__defineSetter__'', ''hasOwnProperty'',
      ''__lookupGetter__'', ''__lookupSetter__'', ''isPrototypeOf'', ''propertyIsEnumerable'',
      ''toString'', ''valueOf'', ''__proto__'', ''toLocaleString'']"

definition get_property :: "(string \<rightharpoonup> jsval) \<Rightarrow> string \<Rightarrow> jsval" where
  "get_property obj key =
     (case obj key of
        Some v \<Rightarrow> v
      | None \<Rightarrow> if key \<in> set objectPrototypeKeys then Inherited else Undefined)"

text \<open>
  An assignment creates or overwrites an own property, except under the key
  \<^verbatim>\<open>__proto__\<close>, whose setter ignores a value that is not an object (the values stored
  here are numbers and strings).
\<close>

definition set_property :: "(string \<rightharpoonup> jsval) \<Rightarrow> string \<Rightarrow> jsval \<Rightarrow> (string \<rightharpoonup> jsval)" where
  "set_property obj key v = (if key = ''__proto__'' then obj else obj(key \<mapsto> v))"

definition nullish :: "jsval \<Rightarrow> jsval \<Rightarrow> jsval" where
  "nullish v d = (if v = Undefined then d else v)"

definition or_else :: "jsval \<Rightarrow> jsval \<Rightarrow> jsval" where
  "or_else v d = (if v = Undefined \<or> v = Number 0 \<or> v = NotANumber then d else v)"

fun js_add :: "jsval \<Rightarrow> jsval \<Rightarrow> jsval" where
  "js_add (Number x) (Number y) = Number (x + y)"
| "js_add Garbled b = Garbled"
| "js_add Inherited b = Garbled"
| "js_add a Garbled = Garbled"
| "js_add a Inherited = Garbled"
| "js_add a b = NotANumber"

fun js_sub :: "jsval \<Rightarrow> jsval \<Rightarrow> jsval" where
  "js_sub (Number x) (Number y) = Number (x - y)"
| "js_sub a b = NotANumber"

fun math_max :: "jsval \<Rightarrow> jsval \<Rightarrow> jsval" where
  "math_max (Number x) (Number y) = Number (max x y)"
| "math_max a b = NotANumber"

section \<open>Double-precision numbers\<close>

text \<open>
  The weights and the weighted sum are IEEE 754 binary64 numbers. A finite double is
  written \<open>Finite m e\<close> and stands for \<open>m * 2 ^ e\<close>; a zero carries no sign. Every
  operation computes the exact result and rounds it once, to the nearest double with ties
  to the even mantissa: \<open>to_double m e\<close> rounds \<open>m * 2 ^ e\<close> to 53 bits, not below the
  exponent -1074 of the subnormal numbers, and to an infinity from \<open>2 ^ 1024\<close> on.
\<close>

datatype double = Finite int int | PlusInfinity | MinusInfinity | NaN

text \<open>\<open>rne_shift a s\<close> is \<open>a / 2 ^ s\<close> rounded to the nearest integer, ties to even.\<close>

definition rne_shift :: "int \<Rightarrow> nat \<Rightarrow> int" where
  "rne_shift a s =
     (let q = a div 2 ^ s; r = a mod 2 ^ s; h = 2 ^ (s - 1)
      in if h < r \<or> (r = h \<and> odd q) then q + 1 else q)"

definition to_double :: "int \<Rightarrow> int \<Rightarrow> double" where
  "to_double m e =
     (let a = \<bar>m\<bar>;
          s = max (bitlen a - 53) (- 1074 - e);
          m' = (if s \<le> 0 then a else rne_shift a (nat s));
          e' = (if s \<le> 0 then e else e + s)
      in if m' \<noteq> 0 \<and> 1024 < bitlen m' + e'
         then (if 0 < m then PlusInfinity else MinusInfinity)
         else Finite (sgn m * m') e')"

definition sign_of :: "double \<Rightarrow> int" where
  "sign_of d =
     (case d of Finite m e \<Rightarrow> sgn m | PlusInfinity \<Rightarrow> 1 | MinusInfinity \<Rightarrow> - 1 | NaN \<Rightarrow> 0)"

definition d_mult :: "double \<Rightarrow> double \<Rightarrow> double" where
  "d_mult a b =
     (case (a, b) of
        (Finite m1 e1, Finite m2 e2) \<Rightarrow> to_double (m1 * m2) (e1 + e2)
      | _ \<Rightarrow>
          if a = NaN \<or> b = NaN \<or> sign_of a * sign_of b = 0 then NaN
          else if 0 < sign_of a * sign_of b then PlusInfinity else MinusInfinity)"

definition d_add :: "double \<Rightarrow> double \<Rightarrow> double" where
  "d_add a b =
     (case (a, b) of
        (Finite m1 e1, Finite m2 e2) \<Rightarrow>
          (let e = min e1 e2 in to_double (m1 * 2 ^ nat (e1 - e) + m2 * 2 ^ nat (e2 - e)) e)
      | (Finite m e, _) \<Rightarrow> b
      | (_, Finite m e) \<Rightarrow> a
      | _ \<Rightarrow> if a = b then a else NaN)"

text \<open>
  \<^verbatim>\<open>Math.round\<close> is exact: the integer nearest to its argument, the upper one at a tie,
  that is the floor of the argument plus one half.
\<close>

definition math_round :: "double \<Rightarrow> double" where
  "math_round d =
     (case d of
        Finite m e \<Rightarrow>
          Finite (if 0 \<le> e then m * 2 ^ nat e else (m + 2 ^ nat (- e - 1)) div 2 ^ nat (- e)) 0
      | _ \<Rightarrow> d)"

text \<open>The number that a value stands for in a product: only a number is one.\<close>

definition to_number :: "jsval \<Rightarrow> double" where
  "to_number v = (case v of Number n \<Rightarrow> to_double n 0 | _ \<Rightarrow> NaN)"

section \<open>Scoring and aggregation\<close>

definition detectSoftFloors :: "string \<Rightarrow> (string \<rightharpoonup> jsval)" where
  "detectSoftFloors text =
     (let hasPrivacySignals =
            (T text (alts [seqs [WordB, Lit ''privacy policy'', WordB], Lit ''privacy act'',
                           Lit ''personal information'',
                           seqs [Lit ''app'', Star (Cls Space), Plus (Cls Digit)]]) \<or>
             T text (alts [Lit ''we collect'', Lit ''why we collect'', Lit ''how to contact'',
                           Lit ''access your information'', Lit ''correction'', Lit ''retention'',
                           Lit ''delete'', Lit ''destroy'']));
          hasSecuritySignals =
            T text (alts [Lit ''encryption'', Lit ''mfa'', Lit ''2fa'', Lit ''access control'',
                          Lit ''least privilege'', Lit ''backup'', Lit ''patch'', Lit ''incident'',
                          Lit ''macro'', Lit ''hardening'', Lit ''rbac'']);
          hasCdssSignals =
            (T text (alts [Lit ''not intended to diagnose'', Lit ''does not diagnose'', Lit ''clinician'',
                           Lit ''health professional'', Lit ''doctor review'']) \<or>
             T text (alts [Lit ''educational'', Lit ''read-only'', Lit ''non-directive'', Lit ''guideline'',
                           Lit ''threshold'', Lit ''transparent'']));
          hasContractSignals =
            T text (alts [Lit ''limitation of liability'', Lit ''liability is limited'', Lit ''indemnity'',
                          Lit ''indemnify'', Lit ''arbitration'', Lit ''governing law'', Lit ''termination'',
                          Lit ''unilateral'', Lit ''class action'']);
          hasVendorSignals =
            T text (alts [seqs [Lit ''third part'', Alt (Lit ''y'') (Lit ''ies'')], Lit ''vendors'',
                          Lit ''processors'', Lit ''sub-processor'', Lit ''share'', Lit ''disclose'',
                          Lit ''stripe'', Lit ''aws'', Lit ''google'', Lit ''overseas'',
                          Lit ''outside australia'', Lit ''cross-border'']);
          SOFT = 20
      in map_of
           [(''privacy_app'', Number (if hasPrivacySignals then SOFT else 0)),
            (''security_e8'', Number (if hasSecuritySignals then SOFT else 0)),
            (''cdss_exemption'', Number (if hasCdssSignals then SOFT else 0)),
            (''contract_fairness'', Number (if hasContractSignals then SOFT else 0)),
            (''vendor_sharing'', Number (if hasVendorSignals then SOFT else 0))])"

definition inferTitle :: "string \<Rightarrow> string" where
  "inferTitle t =
     (case regex_match True
             (alts [Lit ''privacy policy'', Lit ''terms of service'', Lit ''terms and conditions'',
                    Lit ''data processing addendum'']) t of
        Some m \<Rightarrow> fst m
      | None \<Rightarrow> ''Document'')"

definition detectDates :: "string \<Rightarrow> string option" where
  "detectDates t =
     (case regex_match True
             (seqs [Cap 1 (Alt (Lit ''last updated'') (Lit ''effective date'')),
                    Star (Alt (Lit '':'') (Cls Space)),
                    Cap 2 (Alt (seqs [between 3 9 (Cls Letter), Plus (Cls Space), between 1 2 (Cls Digit),
                                      Lit '','', Star (Cls Space), times 4 (Cls Digit)])
                               (seqs [times 4 (Cls Digit), Lit ''-'', times 2 (Cls Digit), Lit ''-'',
                                      times 2 (Cls Digit)]))]) t of
        Some m \<Rightarrow> capture 2 m
      | None \<Rightarrow> None)"

type_synonym weights = "string \<Rightarrow> double"

text \<open>
  The weights of config.js are the doubles nearest to 0.35, 0.25, 0.20, 0.10 and 0.10.
  A key that the object does not have reads as \<^verbatim>\<open>undefined\<close>, which is no number.
\<close>

definition config_weights :: weights where
  "config_weights key =
     (if key = ''privacy_app'' then Finite 6305039478318694 (- 54)
      else if key = ''security_e8'' then Finite 1 (- 2)
      else if key = ''cdss_exemption'' then Finite 7205759403792794 (- 55)
      else if key = ''contract_fairness'' then Finite 7205759403792794 (- 56)
      else if key = ''vendor_sharing'' then Finite 7205759403792794 (- 56)
      else NaN)"

definition maxTokensPerChunk :: int where
  "maxTokensPerChunk = 6000"

definition overlapChars :: int where
  "overlapChars = 800"

record remediation =
  id_item :: string
  title_item :: string
  severity_item :: string
  recommendation_item :: string

record doc_meta =
  doc_title :: string
  source_type :: string
  jurisdiction_mentions :: "string list"
  last_updated_detected :: "string option"

record scores =
  overall :: double
  weights :: weights
  privacy_app :: jsval
  security_e8 :: jsval
  cdss_exemption :: jsval
  contract_fairness :: jsval
  vendor_sharing :: jsval

record report =
  doc :: doc_meta
  scores :: scores
  findings :: "finding list"
  remediation_plan :: "remediation list"

definition severityPenalty :: "string \<rightharpoonup> jsval" where
  "severityPenalty = map_of [(''high'', Number 20), (''medium'', Number 10), (''low'', Number 4)]"

text \<open>The body of the loop over the findings.\<close>

definition count_finding :: "(string \<rightharpoonup> jsval) \<Rightarrow> finding \<Rightarrow> (string \<rightharpoonup> jsval)" where
  "count_finding themeCounters f =
     (let theme' = str_or (theme f) ''other'';
          sev = toLowerCase (str_or (severity f) ''low'');
          pen = nullish (get_property severityPenalty sev) (Number 4)
      in set_property themeCounters theme'
           (js_add (or_else (get_property themeCounters theme') (Number 0)) pen))"

text \<open>The body of the loop over the keys of \<^verbatim>\<open>categoryMap\<close>.\<close>

definition category_score :: "(string \<rightharpoonup> jsval) \<Rightarrow> (string \<rightharpoonup> jsval) \<Rightarrow> string \<Rightarrow> jsval" where
  "category_score themeCounters floors theme' =
     (let penalty = or_else (get_property themeCounters theme') (Number 0);
          rawScore = math_max (Number 0) (js_sub (Number 100) penalty);
          floor' = nullish (get_property floors theme') (Number 0)
      in math_max rawScore floor')"

text \<open>
  The weighted sum, left to right as the source writes it, each product and each sum
  rounded to a double, and the whole rounded to an integer.
\<close>

definition overall_score :: "weights \<Rightarrow> jsval \<Rightarrow> jsval \<Rightarrow> jsval \<Rightarrow> jsval \<Rightarrow> jsval \<Rightarrow> double" where
  "overall_score w p s c f v =
     math_round
       (d_add (d_add (d_add (d_add
          (d_mult (to_number p) (w ''privacy_app''))
          (d_mult (to_number s) (w ''security_e8'')))
          (d_mult (to_number c) (w ''cdss_exemption'')))
          (d_mult (to_number f) (w ''contract_fairness'')))
          (d_mult (to_number v) (w ''vendor_sharing'')))"

definition aggregate :: "weights \<Rightarrow> finding list \<Rightarrow> remediation list \<Rightarrow> string \<Rightarrow> report" where
  "aggregate w fs plan rawText =
     (let floors = detectSoftFloors rawText;
          themeCounters = foldl count_finding Map.empty fs;
          p = category_score themeCounters floors ''privacy_app'';
          s = category_score themeCounters floors ''security_e8'';
          c = category_score themeCounters floors ''cdss_exemption'';
          f = category_score themeCounters floors ''contract_fairness'';
          v = category_score themeCounters floors ''vendor_sharing''
      in \<lparr>doc = \<lparr>doc_title = inferTitle rawText, source_type = ''document'',
                  jurisdiction_mentions = [''AU''], last_updated_detected = detectDates rawText\<rparr>,
          scores = \<lparr>overall = overall_score w p s c f v, weights = w, privacy_app = p,
                     security_e8 = s, cdss_exemption = c, contract_fairness = f, vendor_sharing = v\<rparr>,
          findings = fs, remediation_plan = plan\<rparr>)"

section \<open>Remediation plan\<close>

text \<open>
  The \<^verbatim>\<open>Map\<close> of \<open>dedupeRecommendations\<close> is an association list in insertion order;
  its values are read in that order. A draw is made only for a finding without an id.
\<close>

definition dedupe_step :: "(nat \<Rightarrow> string) \<Rightarrow> (string \<times> remediation) list \<times> nat \<Rightarrow> finding \<Rightarrow>
    (string \<times> remediation) list \<times> nat" where
  "dedupe_step rnd st f =
     (let key = js_slice (str_or (recommendation f) []) 0 200 in
      if key \<noteq> [] \<and> map_of (fst st) key = None
      then (fst st @
              [(key, \<lparr>id_item = str_or (id_field f) (''R-'' @ rnd (snd st)),
                      title_item = str_or (title f) key,
                      severity_item = str_or (severity f) ''medium'',
                      recommendation_item = str_or (recommendation f) []\<rparr>)],
            if str_or (id_field f) [] = [] then Suc (snd st) else snd st)
      else st)"

definition dedupeRecommendations :: "(nat \<Rightarrow> string) \<Rightarrow> nat \<Rightarrow> finding list \<Rightarrow> remediation list \<times> nat" where
  "dedupeRecommendations rnd k fs =
     (let st = foldl (dedupe_step rnd) ([], k) fs in (map snd (fst st), snd st))"

definition rankTable :: "string \<rightharpoonup> jsval" where
  "rankTable = map_of [(''high'', Number 0), (''medium'', Number 1), (''low'', Number 2)]"

definition severityRank :: "string option \<Rightarrow> jsval" where
  "severityRank s =
     nullish (get_property rankTable (case s of None \<Rightarrow> ''undefined'' | Some t \<Rightarrow> toLowerCase t))
       (Number 3)"

definition compare_severity :: "remediation \<Rightarrow> remediation \<Rightarrow> jsval" where
  "compare_severity a b =
     js_sub (severityRank (Some (severity_item a))) (severityRank (Some (severity_item b)))"

text \<open>
  \<^verbatim>\<open>Array.prototype.sort\<close> is stable, and reads a comparator result that is not a number
  as zero. For a consistent comparator the result is determined; \<open>array_sort\<close> computes
  it by insertion. For an inconsistent comparator the standard leaves the order to the
  engine: \<open>array_sort\<close> is then one permitted outcome, and an engine that compares other
  pairs of elements may return another order.
\<close>

definition sort_order :: "jsval \<Rightarrow> int" where
  "sort_order v = (case v of Number n \<Rightarrow> n | _ \<Rightarrow> 0)"

fun insert_sorted :: "('a \<Rightarrow> 'a \<Rightarrow> jsval) \<Rightarrow> 'a \<Rightarrow> 'a list \<Rightarrow> 'a list" where
  "insert_sorted cmp x [] = [x]"
| "insert_sorted cmp x (y # ys) =
     (if sort_order (cmp x y) \<le> 0 then x # y # ys else y # insert_sorted cmp x ys)"

definition array_sort :: "('a \<Rightarrow> 'a \<Rightarrow> jsval) \<Rightarrow> 'a list \<Rightarrow> 'a list" where
  "array_sort cmp xs = foldr (insert_sorted cmp) xs []"

text \<open>The plan as \<^verbatim>\<open>analyzeText\<close> builds it: deduplicate, sort, keep the first six.\<close>

definition plan_of :: "(nat \<Rightarrow> string) \<Rightarrow> nat \<Rightarrow> finding list \<Rightarrow> remediation list \<times> nat" where
  "plan_of rnd k fs =
     (let d = dedupeRecommendations rnd k fs
      in (js_slice (array_sort compare_severity (fst d)) 0 6, snd d))"

section \<open>Indexing and chunking\<close>

definition newline :: char where
  "newline = CHR 0x0A"

definition line_marker :: "nat \<Rightarrow> string" where
  "line_marker n = ''[LINE '' @ decimal n @ ''] ''"

definition indexed_lines :: "string list \<Rightarrow> string list" where
  "indexed_lines lines = map (\<lambda>(index, line). line_marker (index + 1) @ line) (enumerate 0 lines)"

definition indexedText :: "string \<Rightarrow> string" where
  "indexedText rawText = join [newline] (indexed_lines (split_on newline rawText))"

text \<open>The sliding window: the step is at least one, so the loop ends.\<close>

function chunk_loop :: "string \<Rightarrow> int \<Rightarrow> int \<Rightarrow> nat \<Rightarrow> string list \<Rightarrow> string list" where
  "chunk_loop indexed size' overlap i out =
     (let step = nat (max 1 (size' - overlap)) in
      if i < length indexed
      then chunk_loop indexed size' overlap (i + step) (out @ [js_slice indexed (int i) (int i + size')])
      else out)"
  by pat_completeness auto
termination
  by (relation "measure (\<lambda>(indexed, size', overlap, i, out). length indexed - i)") auto

declare chunk_loop.simps [simp del]

definition chunkByChar :: "string \<Rightarrow> int \<Rightarrow> int \<Rightarrow> string list" where
  "chunkByChar rawText size' overlap =
     (let indexed = indexedText rawText;
          out = chunk_loop indexed size' overlap 0 []
      in if out \<noteq> [] then out else [indexed])"

section \<open>Recovering findings from a response\<close>

text \<open>
  \<^verbatim>\<open>JSON.parse\<close> belongs to the platform and is a parameter here: it either throws a
  syntax error or returns a value, of which only being an array (and then its elements)
  matters. A statement completes by returning a value, by throwing, or normally.
\<close>

datatype js_error = SyntaxError | GatewayError

datatype 'a json = JsonArray "'a list" | JsonOther

datatype 'a completion = Return 'a | Throw js_error | Normal

definition try_catch :: "'a completion \<Rightarrow> 'a completion" where
  "try_catch c = (case c of Throw e \<Rightarrow> Normal | _ \<Rightarrow> c)"

definition and_then :: "'a completion \<Rightarrow> 'a completion \<Rightarrow> 'a completion" where
  "and_then c d = (case c of Normal \<Rightarrow> d | _ \<Rightarrow> c)"

text \<open>The body of each \<^verbatim>\<open>try\<close> block: parse, then return the array or the empty array.\<close>

definition parse_tier :: "(string \<Rightarrow> js_error + 'a json) \<Rightarrow> string \<Rightarrow> 'a list completion" where
  "parse_tier JSON_parse x =
     (case JSON_parse x of
        Inl e \<Rightarrow> Throw e
      | Inr (JsonArray xs) \<Rightarrow> Return xs
      | Inr JsonOther \<Rightarrow> Return [])"

definition backticks :: string where
  "backticks = [CHR 0x60, CHR 0x60, CHR 0x60]"

definition fence_rx :: rx where
  "fence_rx = seqs [Lit backticks, Opt (Lit ''json''), Star (Cls Space), Cap 1 (Lazy (Cls AnyChar)), Lit backticks]"

definition arrayLike_rx :: rx where
  "arrayLike_rx = seqs [Lit ''['', Star (Cls AnyChar), Lit '']'']"

definition fence_tier :: "(string \<Rightarrow> js_error + 'a json) \<Rightarrow> string \<Rightarrow> 'a list completion" where
  "fence_tier JSON_parse text =
     (case regex_match True fence_rx text of
        None \<Rightarrow> Normal
      | Some fence \<Rightarrow> try_catch (parse_tier JSON_parse (template_part (capture 1 fence))))"

definition arrayLike_tier :: "(string \<Rightarrow> js_error + 'a json) \<Rightarrow> string \<Rightarrow> 'a list completion" where
  "arrayLike_tier JSON_parse text =
     (case regex_match False arrayLike_rx text of
        None \<Rightarrow> Normal
      | Some arrayLike \<Rightarrow> try_catch (parse_tier JSON_parse (fst arrayLike)))"

text \<open>The argument is \<open>None\<close> when it is not a string.\<close>

definition parseGeminiJson :: "(string \<Rightarrow> js_error + 'a json) \<Rightarrow> string option \<Rightarrow> 'a list completion" where
  "parseGeminiJson JSON_parse arg =
     (case arg of
        None \<Rightarrow> Return []
      | Some text \<Rightarrow>
          if text = [] then Return []
          else and_then (try_catch (parse_tier JSON_parse text))
                 (and_then (fence_tier JSON_parse text)
                   (and_then (arrayLike_tier JSON_parse text) (Return []))))"

section \<open>The public entry\<close>

text \<open>
  The model gateway is a parameter: for a prompt it fails or returns a response whose
  text may be absent. The analysis prompt is a constant of the source and a parameter
  here. The loop over the chunks stops at the first failure of the gateway.
\<close>

fun collect :: "(string \<Rightarrow> js_error + string option) \<Rightarrow> (string \<Rightarrow> js_error + finding json) \<Rightarrow> string \<Rightarrow>
    string list \<Rightarrow> finding list \<Rightarrow> js_error + finding list" where
  "collect generateWithGemini JSON_parse prompt_text [] fs = Inr fs"
| "collect generateWithGemini JSON_parse prompt_text (chunk # chunks) fs =
     (let prompt = join [newline]
            [''<<INSTRUCTIONS>>'', prompt_text,
             ''<<SCOPE>> AU only (APPs + Essential Eight + CDSS exemption signals)'',
             ''<<DOCUMENT_CHUNK>>'', chunk]
      in case generateWithGemini prompt of
           Inl e \<Rightarrow> Inl e
         | Inr text \<Rightarrow>
             (case parseGeminiJson JSON_parse text of
                Return parsed \<Rightarrow> collect generateWithGemini JSON_parse prompt_text chunks (fs @ parsed)
              | Throw e \<Rightarrow> Inl e
              | Normal \<Rightarrow> collect generateWithGemini JSON_parse prompt_text chunks fs))"

text \<open>
  Without model findings the heuristics run in full; otherwise the gap filler runs on
  the model findings.
\<close>

definition complete :: "(nat \<Rightarrow> string) \<Rightarrow> finding list \<Rightarrow> string \<Rightarrow> finding list \<times> nat" where
  "complete rnd fs rawText =
     (if fs = [] then heuristicsAU rnd 0 rawText else ensureMinimumAU rnd 0 fs rawText)"

definition analyzeText :: "(string \<Rightarrow> js_error + string option) \<Rightarrow> (string \<Rightarrow> js_error + finding json) \<Rightarrow>
    (nat \<Rightarrow> string) \<Rightarrow> weights \<Rightarrow> string \<Rightarrow> string \<Rightarrow> js_error + report" where
  "analyzeText generateWithGemini JSON_parse rnd w prompt_text rawText =
     (case collect generateWithGemini JSON_parse prompt_text
             (chunkByChar rawText maxTokensPerChunk overlapChars) [] of
        Inl e \<Rightarrow> Inl e
      | Inr fs \<Rightarrow>
          (let g = complete rnd fs rawText;
               plan = plan_of rnd (snd g) (fst g)
           in Inr (aggregate w (fst g) (fst plan) rawText)))"

section \<open>Predicates and example inputs used in the statements\<close>



text \<open>The keys of \<^verbatim>\<open>categoryMap\<close>: the five fixed themes.\<close>

definition categoryKeys :: "string list" where
  "categoryKeys = [''privacy_app'', ''security_e8'', ''cdss_exemption'', ''contract_fairness'', ''vendor_sharing'']"

text \<open>A finding with no property set, from which examples are built.\<close>

definition bare :: finding where
  "bare = \<lparr>id_field = None, theme = None, title = None, status = None, severity = None,
            evidence = None, impact = None, recommendation = None, references = None,
            confidence = None\<rparr>"

text \<open>A weight map that sums to one and has a negative entry.\<close>

definition skewed_weights :: weights where
  "skewed_weights key =
     (if key = ''privacy_app'' then Finite 2 0 else if key = ''security_e8'' then Finite (- 1) 0
      else Finite 0 0)"

text \<open>
  The real number of a finite double; the weights that are finite and not negative; the
  sum of the five weights as real numbers; and a double that is finite, not negative
  and within a tolerance of a real number.
\<close>

definition valof :: "double \<Rightarrow> real" where
  "valof d = (case d of Finite m e \<Rightarrow> of_int m * 2 powi e | _ \<Rightarrow> 0)"

definition nonneg :: "double \<Rightarrow> bool" where
  "nonneg d = (case d of Finite m e \<Rightarrow> 0 \<le> m | _ \<Rightarrow> False)"

definition weight_total :: "weights \<Rightarrow> real" where
  "weight_total w =
     valof (w ''privacy_app'') + valof (w ''security_e8'') + valof (w ''cdss_exemption'') +
     valof (w ''contract_fairness'') + valof (w ''vendor_sharing'')"

definition near :: "double \<Rightarrow> real \<Rightarrow> real \<Rightarrow> bool" where
  "near d x t =
     (case d of Finite m e \<Rightarrow> 0 \<le> m \<and> \<bar>of_int m * 2 powi e - x\<bar> \<le> t | _ \<Rightarrow> False)"

text \<open>
  The penalty sum of claim C3: per finding 20, 10 or 4 by its lower-cased severity
  (absent, empty or unrecognised counts 4), summed over the findings of a theme.
\<close>

definition penalty_of :: "finding \<Rightarrow> int" where
  "penalty_of f =
     (let sev = toLowerCase (str_or (severity f) ''low'')
      in if sev = ''high'' then 20 else if sev = ''medium'' then 10 else 4)"

definition penaltySum :: "finding list \<Rightarrow> string \<Rightarrow> int" where
  "penaltySum fs th = sum_list (map penalty_of (filter (\<lambda>f. str_or (theme f) ''other'' = th) fs))"

text \<open>A severity is plain when its lower-cased form is not a key of \<^verbatim>\<open>Object.prototype\<close>.\<close>

definition plain_severity :: "finding \<Rightarrow> bool" where
  "plain_severity f = (toLowerCase (str_or (severity f) ''low'') \<notin> set objectPrototypeKeys)"

text \<open>The floor of a theme, as a number, and the counter of a theme as the second loop reads it.\<close>

definition soft_floor :: "string \<Rightarrow> string \<Rightarrow> int" where
  "soft_floor rawText th = (case get_property (detectSoftFloors rawText) th of Number n \<Rightarrow> n | _ \<Rightarrow> 0)"

definition counter :: "(string \<rightharpoonup> jsval) \<Rightarrow> string \<Rightarrow> jsval" where
  "counter m th = or_else (get_property m th) (Number 0)"

text \<open>The severity rank as claim C4 states it: high 0, medium 1, low 2, anything else 3.\<close>

definition claimed_rank :: "string \<Rightarrow> int" where
  "claimed_rank s =
     (let t = toLowerCase s
      in if t = ''high'' then 0 else if t = ''medium'' then 1 else if t = ''low'' then 2 else 3)"

definition plain_item :: "remediation \<Rightarrow> bool" where
  "plain_item r = (toLowerCase (severity_item r) \<notin> set objectPrototypeKeys)"

text \<open>The dedup key of an item, and the findings that have a non-empty one.\<close>

definition item_key :: "remediation \<Rightarrow> string" where
  "item_key r = js_slice (recommendation_item r) 0 200"

definition kept :: "finding \<Rightarrow> bool" where
  "kept f = (str_or (recommendation f) [] \<noteq> [])"

text \<open>A text of two lines.\<close>

definition two_lines :: string where
  "two_lines = ''ab'' @ [newline] @ ''cd''"

text \<open>
  A finding mentions a needle when its lower-cased \<^verbatim>\<open>theme:title\<close> contains it (the test
  inside \<open>have_needle\<close>); a list has a title when one of its findings carries it.
\<close>

definition mentions :: "finding \<Rightarrow> string \<Rightarrow> bool" where
  "mentions f needle =
     includes_str (toLowerCase (template_part (theme f) @ '':'' @ template_part (title f))) needle"

definition has_title :: "finding list \<Rightarrow> string \<Rightarrow> bool" where
  "has_title fs t = list_ex (\<lambda>f. title f = Some t) fs"

text \<open>The document of the end-to-end scenario.\<close>

definition scenario :: string where
  "scenario = ''We collect your name and email for account creation. Contact privacy@example.com for access requests.''"

text \<open>What a finding says apart from its id and its texts.\<close>

definition summary :: "finding \<Rightarrow> string option \<times> string option \<times> string option \<times> string option" where
  "summary f = (theme f, title f, status f, severity f)"

definition has_undisclosed :: "finding list \<Rightarrow> string \<Rightarrow> string \<Rightarrow> bool" where
  "has_undisclosed fs th ti =
     list_ex (\<lambda>f. theme f = Some th \<and> title f = Some ti \<and> status f = Some ''undisclosed'') fs"

section \<open>Evaluation support\<close>

text \<open>Code equations on the bits of a code unit, for evaluation.\<close>

lemma canonicalize_code [code]:
  "canonicalize ic (Char b0 b1 b2 b3 b4 b5 b6 b7) =
     (if ic \<and> \<not> b7 \<and> b6 \<and> b5 \<and> (b0 \<or> b1 \<or> b2 \<or> b3 \<or> b4) \<and> \<not> (b4 \<and> b3 \<and> (b2 \<or> (b1 \<and> b0)))
      then Char b0 b1 b2 b3 b4 False b6 b7 else Char b0 b1 b2 b3 b4 b5 b6 b7)"
  by (cases b0; cases b1; cases b2; cases b3; cases b4; cases b5; cases b6; cases b7; cases ic)
     (simp_all add: canonicalize_def code_unit_def char_of_eq_iff)

lemma toLowerChar_code [code]:
  "toLowerChar (Char b0 b1 b2 b3 b4 b5 b6 b7) =
     (if \<not> b5 \<and> b6 \<and>
         ((\<not> b7 \<and> (b0 \<or> b1 \<or> b2 \<or> b3 \<or> b4) \<and> \<not> (b4 \<and> b3 \<and> (b2 \<or> (b1 \<and> b0)))) \<or>
          (b7 \<and> \<not> (b4 \<and> b3 \<and> b2 \<and> b1 \<and> b0) \<and> \<not> (b4 \<and> \<not> b3 \<and> b2 \<and> b1 \<and> b0)))
      then Char b0 b1 b2 b3 b4 True b6 b7 else Char b0 b1 b2 b3 b4 b5 b6 b7)"
  by (cases b0; cases b1; cases b2; cases b3; cases b4; cases b5; cases b6; cases b7)
     (simp_all add: toLowerChar_def code_unit_def char_of_eq_iff)

lemma in_cls_code [code]:
  "in_cls AnyChar c = True"
  "in_cls Dot (Char b0 b1 b2 b3 b4 b5 b6 b7) =
     (\<not> (\<not> b7 \<and> \<not> b6 \<and> \<not> b5 \<and> \<not> b4 \<and> b3 \<and> ((\<not> b2 \<and> b1 \<and> \<not> b0) \<or> (b2 \<and> \<not> b1 \<and> b0))))"
  "in_cls Space (Char b0 b1 b2 b3 b4 b5 b6 b7) =
     ((\<not> b7 \<and> \<not> b6 \<and> \<not> b5 \<and> \<not> b4 \<and> b3 \<and> ((\<not> b2 \<and> (b1 \<or> b0)) \<or> (b2 \<and> \<not> b1)))
      \<or> (\<not> b6 \<and> b5 \<and> \<not> b4 \<and> \<not> b3 \<and> \<not> b2 \<and> \<not> b1 \<and> \<not> b0))"
  "in_cls Digit (Char b0 b1 b2 b3 b4 b5 b6 b7) =
     (\<not> b7 \<and> \<not> b6 \<and> b5 \<and> b4 \<and> (\<not> b3 \<or> (\<not> b2 \<and> \<not> b1)))"
  "in_cls Letter (Char b0 b1 b2 b3 b4 b5 b6 b7) =
     (\<not> b7 \<and> b6 \<and> (b0 \<or> b1 \<or> b2 \<or> b3 \<or> b4) \<and> \<not> (b4 \<and> b3 \<and> (b2 \<or> (b1 \<and> b0))))"
  subgoal by simp
  subgoal by (cases b0; cases b1; cases b2; cases b3; cases b4; cases b5; cases b6; cases b7)
     (simp_all add: code_unit_def)
  subgoal by (cases b0; cases b1; cases b2; cases b3; cases b4; cases b5; cases b6; cases b7)
     (simp_all add: code_unit_def)
  subgoal by (cases b0; cases b1; cases b2; cases b3; cases b4; cases b5; cases b6; cases b7)
     (simp_all add: code_unit_def)
  subgoal by (cases b0; cases b1; cases b2; cases b3; cases b4; cases b5; cases b6; cases b7)
     (simp_all add: code_unit_def)
  done

lemma is_word_char_code [code]:
  "is_word_char (Char b0 b1 b2 b3 b4 b5 b6 b7) =
     (in_cls Letter (Char b0 b1 b2 b3 b4 b5 b6 b7) \<or> in_cls Digit (Char b0 b1 b2 b3 b4 b5 b6 b7)
      \<or> (b0 \<and> b1 \<and> b2 \<and> b3 \<and> b4 \<and> \<not> b5 \<and> b6 \<and> \<not> b7))"
  by (cases b0; cases b1; cases b2; cases b3; cases b4; cases b5; cases b6; cases b7)
     (simp_all add: is_word_char_def code_unit_def)

section \<open>Indexing and chunking: the loop always emits\<close>

lemma split_on_not_Nil: "split_on d s \<noteq> []"
  by (induction s) (auto simp: Let_def)

lemma join_Cons_prefix: "prefix x (join sep (x # xs))"
  by (cases xs) auto

lemma decimal_1: "decimal (Suc 0) = ''1''"
  by (subst decimal.simps) (simp add: digit_def)

lemma indexedText_prefix: "prefix ''[LINE 1] '' (indexedText rawText)"
proof -
  obtain l ls where sp: "split_on newline rawText = l # ls"
    using split_on_not_Nil by (cases "split_on newline rawText") auto
  have "indexed_lines (l # ls) = (line_marker 1 @ l) # map (\<lambda>(index, line). line_marker (index + 1) @ line) (enumerate 1 ls)"
    by (simp add: indexed_lines_def)
  then have "prefix (line_marker 1 @ l) (indexedText rawText)"
    unfolding indexedText_def sp using join_Cons_prefix by metis
  moreover have "line_marker 1 = ''[LINE 1] ''"
    by (simp add: line_marker_def decimal_1)
  ultimately show ?thesis
    by (metis append_prefixD)
qed

lemma chunk_loop_keeps: "out \<noteq> [] \<Longrightarrow> chunk_loop indexed size' overlap i out \<noteq> []"
proof (induction indexed size' overlap i out rule: chunk_loop.induct)
  case (1 indexed size' overlap i out)
  show ?case
  proof (cases "i < length indexed")
    case True
    with 1 show ?thesis
      by (subst chunk_loop.simps) (simp add: Let_def)
  next
    case False
    with 1 show ?thesis
      by (subst chunk_loop.simps) (simp add: Let_def)
  qed
qed

lemma chunk_loop_first: "indexed \<noteq> [] \<Longrightarrow> chunk_loop indexed size' overlap 0 [] \<noteq> []"
  by (subst chunk_loop.simps) (simp add: Let_def chunk_loop_keeps)

text \<open>
  Claim C10. For every input text, the empty one included, the indexed string built by
  \<open>chunkByChar\<close> starts with the marker of line 1 and so is not empty; the sliding
  window therefore emits at least one chunk, whatever the size and the overlap, and
  \<open>chunkByChar\<close> never takes the branch that returns the indexed string alone.
\<close>

theorem fallback_unreachable:
  "prefix ''[LINE 1] '' (indexedText rawText) \<and> indexedText rawText \<noteq> [] \<and>
   chunk_loop (indexedText rawText) size' overlap 0 [] \<noteq> [] \<and>
   chunkByChar rawText size' overlap = chunk_loop (indexedText rawText) size' overlap 0 []"
proof -
  have p: "prefix ''[LINE 1] '' (indexedText rawText)"
    by (rule indexedText_prefix)
  then have ne: "indexedText rawText \<noteq> []"
    by auto
  then have l: "chunk_loop (indexedText rawText) size' overlap 0 [] \<noteq> []"
    by (rule chunk_loop_first)
  then have "chunkByChar rawText size' overlap = chunk_loop (indexedText rawText) size' overlap 0 []"
    by (simp add: chunkByChar_def Let_def)
  with p ne l show ?thesis by blast
qed

theorem fallback_unreachable_witness:
  "chunk_loop (indexedText []) 4 1 0 [] \<noteq> [] \<and>
   chunkByChar [] 4 1 = chunk_loop (indexedText []) 4 1 0 []"
  using fallback_unreachable [of "[]" 4 1] by simp


section \<open>The response recoverer never throws\<close>









section \<open>Themes outside the fixed five\<close>

lemma get_count_finding_other:
  "k \<noteq> str_or (theme f) ''other'' \<Longrightarrow> get_property (count_finding m f) k = get_property m k"
  by (simp add: count_finding_def set_property_def get_property_def Let_def)

lemma category_score_cong:
  "get_property m' k = get_property m k \<Longrightarrow> category_score m' fl k = category_score m fl k"
  by (simp add: category_score_def)

lemma str_or_not_key:
  assumes "theme f \<notin> Some ` set categoryKeys" and "k \<in> set categoryKeys"
  shows "k \<noteq> str_or (theme f) ''other''"
proof (cases "theme f")
  case None
  with assms(2) show ?thesis by (auto simp: str_or_def categoryKeys_def)
next
  case (Some s)
  show ?thesis
  proof (cases "s = []")
    case True
    with Some assms(2) show ?thesis by (auto simp: str_or_def categoryKeys_def)
  next
    case False
    with Some assms show ?thesis by (auto simp: str_or_def)
  qed
qed

text \<open>
  Claim C8. Appending a finding whose theme is none of the five fixed themes (an absent or
  empty theme counts under \<^verbatim>\<open>other\<close>) leaves the five category scores and the overall
  score of \<open>aggregate\<close> unchanged, for every finding list, text, weight map and
  remediation plan: its penalty goes to a counter that no category reads.
\<close>

theorem other_theme_ignored:
  assumes "theme f \<notin> Some ` set categoryKeys"
  shows "scores (aggregate w (fs @ [f]) plan' rawText) = scores (aggregate w fs plan rawText)"
proof -
  let ?m = "foldl count_finding Map.empty fs"
  have same: "category_score (count_finding ?m f) fl k = category_score ?m fl k"
    if "k \<in> set categoryKeys" for k fl
    using that assms by (intro category_score_cong get_count_finding_other str_or_not_key)
  have keys: "''privacy_app'' \<in> set categoryKeys" "''security_e8'' \<in> set categoryKeys"
    "''cdss_exemption'' \<in> set categoryKeys" "''contract_fairness'' \<in> set categoryKeys"
    "''vendor_sharing'' \<in> set categoryKeys"
    by (simp_all add: categoryKeys_def)
  show ?thesis
    by (simp add: aggregate_def Let_def same keys)
qed

theorem other_theme_ignored_witness:
  "scores (aggregate config_weights ([bare\<lparr>theme := Some ''privacy_app''\<rparr>] @ [bare\<lparr>severity := Some ''high''\<rparr>]) [] ''we collect'')
   = scores (aggregate config_weights [bare\<lparr>theme := Some ''privacy_app''\<rparr>] [] ''we collect'')"
  using other_theme_ignored [of "bare\<lparr>severity := Some ''high''\<rparr>" config_weights "[bare\<lparr>theme := Some ''privacy_app''\<rparr>]" "[]" "''we collect''" "[]"]
  by (simp add: bare_def categoryKeys_def)

section \<open>The overall score\<close>

text \<open>
  Rounding to the nearest even: the rounded mantissa, scaled back, is within half a unit
  of the last place of the exact one.
\<close>

lemma rne_shift_bounds:
  assumes "0 \<le> a" and "0 < s"
  shows "0 \<le> rne_shift a s"
    and "2 * (rne_shift a s * 2 ^ s) \<le> 2 * a + 2 ^ s"
    and "2 * a \<le> 2 * (rne_shift a s * 2 ^ s) + 2 ^ s"
proof -
  define q r h P where "q = a div 2 ^ s" and "r = a mod 2 ^ s" and "h = (2::int) ^ (s - 1)"
    and "P = q * 2 ^ s"
  have p: "(2::int) ^ s = 2 * h"
    using assms(2) by (cases s) (simp_all add: h_def)
  have a: "a = P + r"
    unfolding P_def q_def r_def by (rule div_mult_mod_eq [symmetric])
  have r: "0 \<le> r" "r < 2 * h"
    unfolding r_def p [symmetric] by simp_all
  have q: "0 \<le> q"
    using assms(1) by (simp add: q_def pos_imp_zdiv_nonneg_iff)
  have v: "rne_shift a s = (if h < r \<or> (r = h \<and> odd q) then q + 1 else q)"
    by (simp add: rne_shift_def Let_def q_def r_def h_def)
  show "0 \<le> rne_shift a s"
    using q by (simp add: v)
  have e1: "(q + 1) * 2 ^ s = P + 2 * h"
    by (simp add: algebra_simps P_def p)
  show "2 * (rne_shift a s * 2 ^ s) \<le> 2 * a + 2 ^ s"
  proof (cases "h < r \<or> (r = h \<and> odd q)")
    case True
    then have "rne_shift a s * 2 ^ s = P + 2 * h" and "h \<le> r"
      by (auto simp: v e1)
    then show ?thesis using a p by linarith
  next
    case False
    then have "rne_shift a s * 2 ^ s = P"
      by (simp add: v P_def)
    then show ?thesis using a p r by linarith
  qed
  show "2 * a \<le> 2 * (rne_shift a s * 2 ^ s) + 2 ^ s"
  proof (cases "h < r \<or> (r = h \<and> odd q)")
    case True
    then have "rne_shift a s * 2 ^ s = P + 2 * h"
      by (auto simp: v e1)
    then show ?thesis using a p r by linarith
  next
    case False
    then have "rne_shift a s * 2 ^ s = P" and "r \<le> h"
      by (auto simp: v P_def)
    then show ?thesis using a p by linarith
  qed
qed

lemma bitlen_exponent:
  assumes "0 < k" and "real_of_int k * 2 powi e < 2 powi n"
  shows "bitlen k + e \<le> n"
proof -
  have "2 ^ nat (bitlen k - 1) \<le> k"
    using bitlen_bounds [OF assms(1)] by simp
  then have "(2::real) ^ nat (bitlen k - 1) \<le> real_of_int k"
    by (metis of_int_le_iff of_int_numeral of_int_power)
  moreover have "1 \<le> bitlen k"
    using assms(1) by (simp add: bitlen_alt_def)
  ultimately have "(2::real) powi (bitlen k - 1) \<le> real_of_int k"
    by (simp add: power_int_def)
  then have "(2::real) powi (bitlen k - 1) * 2 powi e \<le> real_of_int k * 2 powi e"
    by (intro mult_right_mono) simp_all
  with assms(2) have "(2::real) powi (bitlen k - 1) * 2 powi e < 2 powi n"
    by linarith
  then have "(2::real) powi (bitlen k - 1 + e) < 2 powi n"
    by (simp add: power_int_add)
  then have "bitlen k - 1 + e < n"
    using power_int_increasing [of n "bitlen k - 1 + e" "2::real"] by (cases "bitlen k - 1 + e < n") auto
  then show ?thesis by simp
qed

lemma powi_less_exp: "(2::real) powi a \<le> 2 powi b" if "a \<le> b"
  using that by (intro power_int_increasing) simp_all

lemma to_double_exact:
  assumes "bitlen \<bar>m\<bar> \<le> 53" and "- 1074 \<le> e" and "m = 0 \<or> bitlen \<bar>m\<bar> + e \<le> 1024"
  shows "to_double m e = Finite m e"
proof -
  have "max (bitlen \<bar>m\<bar> - 53) (- 1074 - e) \<le> 0"
    using assms(1,2) by simp
  moreover have "sgn m * \<bar>m\<bar> = m"
    by (simp add: mult_sgn_abs)
  ultimately show ?thesis
    using assms(3) by (auto simp: to_double_def Let_def)
qed

lemma rne_shift_zero: "rne_shift 0 s = 0"
  by (simp add: rne_shift_def Let_def)

text \<open>
  Below 1000 a double is at least \<open>2 ^ 10 / 2 ^ 53\<close> fine, so one rounding moves a value by at
  most \<open>2 ^ - 44\<close>.
\<close>

lemma to_double_near:
  assumes "0 \<le> m" and "real_of_int m * 2 powi e \<le> 1000"
  shows "near (to_double m e) (real_of_int m * 2 powi e) (2 powi (- 44))"
proof (cases "m = 0")
  case True
  then have "to_double m e = Finite 0 (if max (- 53) (- 1074 - e) \<le> 0 then e else e + max (- 53) (- 1074 - e))"
    by (simp add: to_double_def Let_def rne_shift_zero)
  with True show ?thesis
    by (simp add: near_def)
next
  case False
  with assms(1) have pos: "0 < m" by simp
  define x where "x = real_of_int m * 2 powi e"
  define s where "s = max (bitlen m - 53) (- 1074 - e)"
  have "x < 2 powi 10"
    using assms(2) by (simp add: x_def)
  then have be: "bitlen m + e \<le> 10"
    unfolding x_def using pos by (rule bitlen_exponent [rotated])
  show ?thesis
  proof (cases "s \<le> 0")
    case True
    then have "to_double m e = Finite m e"
      using be pos by (intro to_double_exact) (simp_all add: s_def)
    then show ?thesis
      using pos by (simp add: near_def)
  next
    case False
    define m' where "m' = rne_shift m (nat s)"
    define P where "P = (2::int) ^ nat s"
    have sp: "0 < nat s" using False by simp
    have b: "0 \<le> m'" "2 * (m' * P) \<le> 2 * m + P" "2 * m \<le> 2 * (m' * P) + P"
      unfolding m'_def P_def using rne_shift_bounds [OF assms(1) sp] by simp_all
    have "real_of_int P = 2 powi int (nat s)"
      unfolding P_def by (simp only: power_int_of_nat of_int_power of_int_numeral)
    also have "int (nat s) = s" using False by simp
    finally have Pe: "real_of_int P * 2 powi e = 2 powi (e + s)"
      by (simp add: power_int_add mult.commute)
    have es: "e + s \<le> - 43"
      using be by (simp add: s_def)
    then have small: "(2::real) powi (e + s) \<le> 2 powi (- 43)"
      by (rule powi_less_exp)
    have "(2::real) powi (1 + (- 44)) = 2 powi 1 * 2 powi (- 44)"
      by (rule power_int_add) simp
    then have half: "(2::real) powi (- 43) = 2 * 2 powi (- 44)"
      by simp
    have pe: "(0::real) < 2 powi e" by simp
    have eq1: "real_of_int (2 * (m' * P)) * 2 powi e = 2 * (real_of_int m' * (real_of_int P * 2 powi e))"
      by simp
    have eq2: "real_of_int (2 * m + P) * 2 powi e = 2 * x + real_of_int P * 2 powi e"
      by (simp add: x_def algebra_simps)
    have eq3: "real_of_int (2 * m) * 2 powi e = 2 * x"
      by (simp add: x_def)
    have eq4: "real_of_int (2 * (m' * P) + P) * 2 powi e
                 = 2 * (real_of_int m' * (real_of_int P * 2 powi e)) + real_of_int P * 2 powi e"
      by (simp add: algebra_simps)
    have "real_of_int (2 * (m' * P)) \<le> real_of_int (2 * m + P)"
      using b(2) by (simp only: of_int_le_iff)
    then have "real_of_int (2 * (m' * P)) * 2 powi e \<le> real_of_int (2 * m + P) * 2 powi e"
      using pe by (intro mult_right_mono) simp_all
    then have u: "2 * (real_of_int m' * 2 powi (e + s)) \<le> 2 * x + 2 powi (e + s)"
      unfolding eq1 eq2 Pe .
    have "real_of_int (2 * m) \<le> real_of_int (2 * (m' * P) + P)"
      using b(3) by (simp only: of_int_le_iff)
    then have "real_of_int (2 * m) * 2 powi e \<le> real_of_int (2 * (m' * P) + P) * 2 powi e"
      using pe by (intro mult_right_mono) simp_all
    then have l: "2 * x \<le> 2 * (real_of_int m' * 2 powi (e + s)) + 2 powi (e + s)"
      unfolding eq3 eq4 Pe .
    have err: "\<bar>real_of_int m' * 2 powi (e + s) - x\<bar> \<le> 2 powi (- 44)"
      using u l small half by linarith
    have "m' = 0 \<or> bitlen m' + (e + s) \<le> 1024"
    proof (cases "m' = 0")
      case True
      then show ?thesis by simp
    next
      case False
      with b(1) have "0 < m'" by simp
      moreover have "real_of_int m' * 2 powi (e + s) < 2 powi 10"
      proof -
        define d :: real where "d = 2 powi (- 44)"
        have "d \<le> 2 powi 0"
          unfolding d_def by (rule powi_less_exp) simp
        then have "d \<le> 1" by simp
        moreover have "\<bar>real_of_int m' * 2 powi (e + s) - x\<bar> \<le> d"
          using err by (simp only: d_def)
        moreover have "x \<le> 1000"
          using assms(2) by (simp only: x_def)
        ultimately have "real_of_int m' * 2 powi (e + s) < 1024"
          by linarith
        then show ?thesis by simp
      qed
      ultimately have "bitlen m' + (e + s) \<le> 10"
        by (rule bitlen_exponent)
      then show ?thesis by simp
    qed
    then have "to_double m e = Finite m' (e + s)"
      using pos False by (auto simp: to_double_def Let_def s_def m'_def)
    then show ?thesis
      using b(1) err by (simp add: near_def x_def)
  qed
qed

text \<open>\<^verbatim>\<open>Math.round\<close> of a finite double is the floor of its value plus one half.\<close>

lemma math_round_floor:
  "math_round (Finite m e) = Finite \<lfloor>real_of_int m * 2 powi e + 1 / 2\<rfloor> 0"
proof (cases "0 \<le> e")
  case True
  then have "real_of_int m * 2 powi e = real_of_int (m * 2 ^ nat e)"
    by (simp add: power_int_def)
  moreover have "\<lfloor>real_of_int (m * 2 ^ nat e) + 1 / 2\<rfloor> = m * 2 ^ nat e"
    by (rule floor_unique) simp_all
  ultimately have "\<lfloor>real_of_int m * 2 powi e + 1 / 2\<rfloor> = m * 2 ^ nat e"
    by (simp only:)
  with True show ?thesis
    by (simp add: math_round_def)
next
  case False
  define k where "k = nat (- e)"
  have k: "0 < k" "e = - int k" using False by (simp_all add: k_def)
  have kk: "nat (- e - 1) = k - 1" unfolding k_def by simp
  have p: "(2::int) ^ k = 2 * 2 ^ (k - 1)"
    using k(1) by (cases k) simp_all
  define H :: real where "H = 2 ^ (k - 1)"
  have H: "0 < H" by (simp add: H_def)
  have K: "real_of_int (2 ^ k) = 2 * H"
    by (subst p) (simp add: H_def)
  have "(2::real) powi e = 1 / real_of_int (2 ^ k)"
    unfolding k(2) by (simp add: power_int_minus_divide)
  then have pe: "(2::real) powi e = 1 / (2 * H)"
    by (simp only: K)
  have "real_of_int m * (1 / (2 * H)) + 1 / 2 = (real_of_int m + H) / (2 * H)"
    using H by (simp add: field_simps)
  moreover have "real_of_int (m + 2 ^ (k - 1)) = real_of_int m + H"
    by (simp add: H_def)
  ultimately have "real_of_int m * 2 powi e + 1 / 2 = real_of_int (m + 2 ^ (k - 1)) / real_of_int (2 ^ k)"
    by (simp only: pe K)
  then have "\<lfloor>real_of_int m * 2 powi e + 1 / 2\<rfloor> = (m + 2 ^ (k - 1)) div 2 ^ k"
    by (simp only: floor_divide_of_int_eq)
  with False show ?thesis
    by (simp add: math_round_def kk k_def)
qed

text \<open>
  A category score times a weight, and the sum of two doubles, are within \<open>2 ^ - 44\<close> of
  the exact product and sum.
\<close>

lemma to_number_small:
  assumes "0 \<le> p" and "p \<le> 100"
  shows "to_number (Number p) = Finite p 0"
proof -
  have "p < 2 ^ nat 53" using assms(2) by simp
  then have "bitlen \<bar>p\<bar> \<le> 53"
    using assms(1) by (simp add: bitlen_le_iff_power)
  then have "to_double p 0 = Finite p 0"
    by (intro to_double_exact) simp_all
  then show ?thesis by (simp add: to_number_def)
qed

lemma mult_near:
  assumes "0 \<le> p" and "p \<le> 100" and "nonneg w'" and "valof w' \<le> 2"
  shows "near (d_mult (to_number (Number p)) w') (real_of_int p * valof w') (2 powi (- 44))"
proof -
  from assms(3) obtain m e where w: "w' = Finite m e" and m: "0 \<le> m"
    by (cases w') (simp_all add: nonneg_def)
  have v: "valof w' = real_of_int m * 2 powi e"
    by (simp add: w valof_def)
  have "0 \<le> valof w'"
    using m by (simp add: v)
  then have "real_of_int p * valof w' \<le> 100 * 2"
    using assms(1,2,4) by (intro mult_mono) simp_all
  then have "real_of_int (p * m) * 2 powi (0 + e) \<le> 1000"
    by (simp add: v mult.assoc)
  moreover have "0 \<le> p * m"
    using assms(1) m by simp
  ultimately have "near (to_double (p * m) (0 + e)) (real_of_int (p * m) * 2 powi (0 + e)) (2 powi (- 44))"
    by (intro to_double_near)
  then show ?thesis
    using to_number_small [OF assms(1,2)] by (simp add: d_mult_def w valof_def mult.assoc)
qed

lemma shift_exact:
  assumes "e \<le> e1"
  shows "real_of_int (2 ^ nat (e1 - e)) * 2 powi e = 2 powi e1"
proof -
  have "real_of_int (2 ^ nat (e1 - e)) = 2 powi int (nat (e1 - e))"
    by (simp only: power_int_of_nat of_int_power of_int_numeral)
  also have "int (nat (e1 - e)) = e1 - e" using assms by simp
  finally have "real_of_int (2 ^ nat (e1 - e)) * 2 powi e = 2 powi (e1 - e) * 2 powi e"
    by simp
  also have "\<dots> = 2 powi (e1 - e + e)"
    by (rule power_int_add [symmetric]) simp
  finally show ?thesis by simp
qed

lemma add_near:
  assumes "near a x s" and "near b y t" and "x + y + s + t \<le> 1000"
  shows "near (d_add a b) (x + y) (s + t + 2 powi (- 44))"
proof -
  from assms(1) obtain m1 e1 where a: "a = Finite m1 e1" and m1: "0 \<le> m1"
    and ax: "\<bar>real_of_int m1 * 2 powi e1 - x\<bar> \<le> s"
    by (cases a) (simp_all add: near_def)
  from assms(2) obtain m2 e2 where b: "b = Finite m2 e2" and m2: "0 \<le> m2"
    and bx: "\<bar>real_of_int m2 * 2 powi e2 - y\<bar> \<le> t"
    by (cases b) (simp_all add: near_def)
  define e where "e = min e1 e2"
  define n where "n = m1 * 2 ^ nat (e1 - e) + m2 * 2 ^ nat (e2 - e)"
  define z where "z = real_of_int n * 2 powi e"
  have "real_of_int n * 2 powi e
          = real_of_int m1 * (real_of_int (2 ^ nat (e1 - e)) * 2 powi e)
            + real_of_int m2 * (real_of_int (2 ^ nat (e2 - e)) * 2 powi e)"
    by (simp add: n_def algebra_simps)
  also have "\<dots> = real_of_int m1 * 2 powi e1 + real_of_int m2 * 2 powi e2"
    by (simp only: shift_exact e_def min.cobounded1 min.cobounded2)
  finally have z: "z = real_of_int m1 * 2 powi e1 + real_of_int m2 * 2 powi e2"
    by (simp add: z_def)
  have n0: "0 \<le> n"
    using m1 m2 by (simp add: n_def)
  have "z \<le> 1000"
    using z ax bx assms(3) by linarith
  then have "near (to_double n e) z (2 powi (- 44))"
    unfolding z_def using n0 by (intro to_double_near)
  then obtain m' e' where r: "to_double n e = Finite m' e'" and m': "0 \<le> m'"
    and rz: "\<bar>real_of_int m' * 2 powi e' - z\<bar> \<le> 2 powi (- 44)"
    by (cases "to_double n e") (simp_all add: near_def)
  have "\<bar>real_of_int m' * 2 powi e' - (x + y)\<bar> \<le> s + t + 2 powi (- 44)"
    using rz z ax bx by linarith
  moreover have "d_add a b = Finite m' e'"
    by (simp add: d_add_def a b Let_def r [unfolded n_def e_def])
  ultimately show ?thesis
    using m' by (simp add: near_def)
qed

lemma near_exact: "nonneg d \<Longrightarrow> near d (valof d) 0"
  by (cases d) (simp_all add: nonneg_def near_def valof_def)

lemma valof_nonneg: "nonneg d \<Longrightarrow> 0 \<le> valof d"
  by (cases d) (simp_all add: nonneg_def valof_def)

lemma tolerance: "(2::real) powi (- 44) = 1 / 17592186044416"
  by simp

text \<open>
  The weights of config.js: each is the double nearest to its decimal (a 53-bit mantissa,
  less than half a unit of the last place away), and their values sum to one exactly. On
  the category scores 92, 90, 100, 100 and 88 the decimal weights would give 93.5; the sum
  of doubles is just below it, and the overall score is 93.
\<close>

lemma config_weights_nonneg:
  "nonneg (config_weights ''privacy_app'')" "nonneg (config_weights ''security_e8'')"
  "nonneg (config_weights ''cdss_exemption'')" "nonneg (config_weights ''contract_fairness'')"
  "nonneg (config_weights ''vendor_sharing'')"
  by (simp_all add: config_weights_def nonneg_def)

lemma config_weights_total: "weight_total config_weights = 1"
  by (simp add: weight_total_def valof_def config_weights_def)

lemma config_weights_rounded:
  "\<bar>valof (config_weights ''privacy_app'') - 35 / 100\<bar> < 2 powi (- 55)"
  "valof (config_weights ''security_e8'') = 25 / 100"
  "\<bar>valof (config_weights ''cdss_exemption'') - 20 / 100\<bar> < 2 powi (- 56)"
  "\<bar>valof (config_weights ''contract_fairness'') - 10 / 100\<bar> < 2 powi (- 57)"
  "\<bar>valof (config_weights ''vendor_sharing'') - 10 / 100\<bar> < 2 powi (- 57)"
  by (simp_all add: valof_def config_weights_def)

lemma config_weights_normal:
  "bitlen 6305039478318694 = 53" "bitlen 7205759403792794 = 53"
  by code_simp+

lemma js_sum_one:
  assumes "nonneg a" "nonneg b" "nonneg c" "nonneg d" "nonneg e"
    and "valof a \<le> 1" "valof b \<le> 1" "valof c \<le> 1" "valof d \<le> 1" "valof e \<le> 1"
    and "d_add (d_add (d_add (d_add a b) c) d) e = Finite m k" and "real_of_int m * 2 powi k = 1"
  shows "valof a + valof b + valof c + valof d + valof e \<le> 1 + 1 / 2 ^ 40"
proof -
  define t :: real where "t = 2 powi (- 44)"
  have tv: "t = 1 / 17592186044416"
    unfolding t_def by (rule tolerance)
  have t0: "0 \<le> t"
    unfolding tv by simp
  have an: "near a x s \<Longrightarrow> near b y u \<Longrightarrow> x + y + s + u \<le> 1000 \<Longrightarrow>
            near (d_add a b) (x + y) (s + u + t)" for a b x y s u
    unfolding t_def by (rule add_near)
  note v0 = assms(1-5) [THEN valof_nonneg]
  note ex = assms(1-5) [THEN near_exact]
  have "t \<le> 1"
    unfolding tv by simp
  note le = assms(6-10) this t0 v0
  have "near (d_add a b) (valof a + valof b) (0 + 0 + t)"
    using ex(1,2) by (rule an) (use le in linarith)
  then have "near (d_add (d_add a b) c) (valof a + valof b + valof c) (0 + 0 + t + 0 + t)"
    using ex(3) by (rule an) (use le in linarith)
  then have "near (d_add (d_add (d_add a b) c) d) (valof a + valof b + valof c + valof d)
                  (0 + 0 + t + 0 + t + 0 + t)"
    using ex(4) by (rule an) (use le in linarith)
  then have "near (d_add (d_add (d_add (d_add a b) c) d) e)
                  (valof a + valof b + valof c + valof d + valof e) (0 + 0 + t + 0 + t + 0 + t + 0 + t)"
    using ex(5) by (rule an) (use le in linarith)
  then have "\<bar>1 - (valof a + valof b + valof c + valof d + valof e)\<bar> \<le> 0 + 0 + t + 0 + t + 0 + t + 0 + t"
    unfolding assms(11) near_def by (simp add: assms(12))
  moreover have "4 * t \<le> 1 / 2 ^ 40"
    unfolding tv by simp
  ultimately show ?thesis by linarith
qed

lemma overall_config_samples:
  "overall_score config_weights (Number 92) (Number 90) (Number 100) (Number 100) (Number 88) = Finite 93 0"
  "overall_score config_weights (Number 100) (Number 100) (Number 100) (Number 100) (Number 100) = Finite 100 0"
  "overall_score config_weights (Number 0) (Number 0) (Number 0) (Number 0) (Number 0) = Finite 0 0"
  by code_simp+

text \<open>
  Claim C5, amended. For every weight map over the five themes whose entries are finite
  doubles, not negative, with values that sum to one or to at most \<open>1 + 2 ^ - 40\<close> (the
  room that five weights rounded to doubles need), and for all category scores between 0
  and 100, the overall score (the sum of the five products, each product and each sum
  rounded to a double, then rounded to an integer) is an integer between 0 and 100.
\<close>

theorem overall_in_range:
  assumes "nonneg (w ''privacy_app'')" and "nonneg (w ''security_e8'')"
    and "nonneg (w ''cdss_exemption'')" and "nonneg (w ''contract_fairness'')"
    and "nonneg (w ''vendor_sharing'')"
    and "weight_total w \<le> 1 + 1 / 2 ^ 40"
    and "0 \<le> p" "p \<le> 100" "0 \<le> s" "s \<le> 100" "0 \<le> c" "c \<le> 100"
    and "0 \<le> f" "f \<le> 100" "0 \<le> v" "v \<le> 100"
  shows "\<exists>r. overall_score w (Number p) (Number s) (Number c) (Number f) (Number v) = Finite r 0 \<and>
             0 \<le> r \<and> r \<le> 100"
proof -
  define d :: real where "d = 2 powi (- 44)"
  define a1 a2 a3 a4 a5 where "a1 = valof (w ''privacy_app'')" and "a2 = valof (w ''security_e8'')"
    and "a3 = valof (w ''cdss_exemption'')" and "a4 = valof (w ''contract_fairness'')"
    and "a5 = valof (w ''vendor_sharing'')"
  define x1 x2 x3 x4 x5 where "x1 = real_of_int p * a1" and "x2 = real_of_int s * a2"
    and "x3 = real_of_int c * a3" and "x4 = real_of_int f * a4" and "x5 = real_of_int v * a5"
  have dv: "d = 1 / 17592186044416"
    unfolding d_def by (rule tolerance)
  have a0: "0 \<le> a1" "0 \<le> a2" "0 \<le> a3" "0 \<le> a4" "0 \<le> a5"
    unfolding a1_def a2_def a3_def a4_def a5_def using assms(1-5) by (simp_all add: valof_nonneg)
  have tot: "a1 + a2 + a3 + a4 + a5 \<le> 1 + 1 / 2 ^ 40"
    using assms(6) by (simp add: weight_total_def a1_def a2_def a3_def a4_def a5_def)
  have a2': "a1 \<le> 2" "a2 \<le> 2" "a3 \<le> 2" "a4 \<le> 2" "a5 \<le> 2"
    using a0 tot by simp_all
  have x0: "0 \<le> x1" "0 \<le> x2" "0 \<le> x3" "0 \<le> x4" "0 \<le> x5"
    unfolding x1_def x2_def x3_def x4_def x5_def using a0 assms(7-16) by simp_all
  have xu: "x1 \<le> 100 * a1" "x2 \<le> 100 * a2" "x3 \<le> 100 * a3" "x4 \<le> 100 * a4" "x5 \<le> 100 * a5"
    unfolding x1_def x2_def x3_def x4_def x5_def using a0 assms(7-16) by (simp_all add: mult_right_mono)
  have sum: "x1 + x2 + x3 + x4 + x5 \<le> 100 + 100 / 2 ^ 40"
    using xu tot by simp
  have n1: "near (d_mult (to_number (Number p)) (w ''privacy_app'')) x1 d"
    unfolding x1_def a1_def d_def using assms(7,8,1) a2'(1) [unfolded a1_def] by (rule mult_near)
  have n2: "near (d_mult (to_number (Number s)) (w ''security_e8'')) x2 d"
    unfolding x2_def a2_def d_def using assms(9,10,2) a2'(2) [unfolded a2_def] by (rule mult_near)
  have n3: "near (d_mult (to_number (Number c)) (w ''cdss_exemption'')) x3 d"
    unfolding x3_def a3_def d_def using assms(11,12,3) a2'(3) [unfolded a3_def] by (rule mult_near)
  have n4: "near (d_mult (to_number (Number f)) (w ''contract_fairness'')) x4 d"
    unfolding x4_def a4_def d_def using assms(13,14,4) a2'(4) [unfolded a4_def] by (rule mult_near)
  have n5: "near (d_mult (to_number (Number v)) (w ''vendor_sharing'')) x5 d"
    unfolding x5_def a5_def d_def using assms(15,16,5) a2'(5) [unfolded a5_def] by (rule mult_near)
  have small: "x1 + x2 + x3 + x4 + x5 + 9 * d \<le> 101" and d0: "0 \<le> d"
    using sum dv by simp_all
  have an: "near a x t \<Longrightarrow> near b y u \<Longrightarrow> x + y + t + u \<le> 1000 \<Longrightarrow>
            near (d_add a b) (x + y) (t + u + d)" for a b x y t u
    unfolding d_def by (rule add_near)
  have s2: "near (d_add (d_mult (to_number (Number p)) (w ''privacy_app''))
                        (d_mult (to_number (Number s)) (w ''security_e8''))) (x1 + x2) (d + d + d)"
    using n1 n2 by (rule an) (use x0 small d0 in linarith)
  have s3: "near (d_add (d_add (d_mult (to_number (Number p)) (w ''privacy_app''))
                               (d_mult (to_number (Number s)) (w ''security_e8'')))
                        (d_mult (to_number (Number c)) (w ''cdss_exemption''))) (x1 + x2 + x3) (d + d + d + d + d)"
    using s2 n3
    by (rule an) (use x0 small d0 in linarith)
  have s4: "near (d_add (d_add (d_add (d_mult (to_number (Number p)) (w ''privacy_app''))
                               (d_mult (to_number (Number s)) (w ''security_e8'')))
                        (d_mult (to_number (Number c)) (w ''cdss_exemption'')))
                        (d_mult (to_number (Number f)) (w ''contract_fairness'')))
                 (x1 + x2 + x3 + x4) (d + d + d + d + d + d + d)"
    using s3 n4
    by (rule an) (use x0 small d0 in linarith)
  have s5: "near (d_add (d_add (d_add (d_add (d_mult (to_number (Number p)) (w ''privacy_app''))
                               (d_mult (to_number (Number s)) (w ''security_e8'')))
                        (d_mult (to_number (Number c)) (w ''cdss_exemption'')))
                        (d_mult (to_number (Number f)) (w ''contract_fairness'')))
                        (d_mult (to_number (Number v)) (w ''vendor_sharing'')))
                 (x1 + x2 + x3 + x4 + x5) (d + d + d + d + d + d + d + d + d)"
    using s4 n5
    by (rule an) (use x0 small d0 in linarith)
  then obtain m e where t: "d_add (d_add (d_add (d_add (d_mult (to_number (Number p)) (w ''privacy_app''))
                               (d_mult (to_number (Number s)) (w ''security_e8'')))
                        (d_mult (to_number (Number c)) (w ''cdss_exemption'')))
                        (d_mult (to_number (Number f)) (w ''contract_fairness'')))
                        (d_mult (to_number (Number v)) (w ''vendor_sharing'')) = Finite m e"
    and m: "0 \<le> m"
    and e: "\<bar>real_of_int m * 2 powi e - (x1 + x2 + x3 + x4 + x5)\<bar> \<le> d + d + d + d + d + d + d + d + d"
    unfolding near_def by (auto split: double.splits)
  define y where "y = real_of_int m * 2 powi e"
  have "0 \<le> y"
    unfolding y_def using m by simp
  moreover have "y < 100 + 1 / 2"
  proof -
    have "d \<le> 1 / 1000"
      unfolding dv by simp
    moreover have "x1 + x2 + x3 + x4 + x5 \<le> 100 + 1 / 1000"
      using sum by simp
    moreover have "\<bar>y - (x1 + x2 + x3 + x4 + x5)\<bar> \<le> d + d + d + d + d + d + d + d + d"
      unfolding y_def by (rule e)
    ultimately show ?thesis by linarith
  qed
  ultimately have "0 \<le> \<lfloor>y + 1 / 2\<rfloor>" and "\<lfloor>y + 1 / 2\<rfloor> \<le> 100"
    by (simp_all add: floor_le_iff le_floor_iff)
  moreover have "overall_score w (Number p) (Number s) (Number c) (Number f) (Number v) = Finite \<lfloor>y + 1 / 2\<rfloor> 0"
    unfolding overall_score_def t y_def by (rule math_round_floor)
  ultimately show ?thesis by blast
qed

theorem overall_in_range_witness:
  "weight_total config_weights \<le> 1 + 1 / 2 ^ 40 \<and>
   (\<exists>r. overall_score config_weights (Number 92) (Number 90) (Number 100) (Number 100) (Number 88) = Finite r 0 \<and>
        0 \<le> r \<and> r \<le> 100)"
  using overall_in_range [of config_weights 92 90 100 100 88]
  by (simp add: config_weights_nonneg config_weights_total)

text \<open>
  Claim C5 as stated asks only that the weights sum to one. With the weights 2 and -1 on
  the first two themes and the scores 100 and 0, the overall score is 200.
\<close>

theorem overall_out_of_range:
  "weight_total skewed_weights = 1 \<and>
   overall_score skewed_weights (Number 100) (Number 0) (Number 0) (Number 0) (Number 0) = Finite 200 0"
proof -
  have "overall_score skewed_weights (Number 100) (Number 0) (Number 0) (Number 0) (Number 0) = Finite 200 0"
    by code_simp
  then show ?thesis
    by (simp add: weight_total_def valof_def skewed_weights_def)
qed

section \<open>Category scores\<close>

lemma plain_penalty:
  "plain_severity f \<Longrightarrow>
   nullish (get_property severityPenalty (toLowerCase (str_or (severity f) ''low''))) (Number 4) = Number (penalty_of f)"
  by (simp add: plain_severity_def penalty_of_def get_property_def severityPenalty_def nullish_def Let_def)

lemma counter_set_same:
  "th \<noteq> ''__proto__'' \<Longrightarrow> counter (set_property m th (Number n)) th = Number n"
  by (simp add: counter_def set_property_def get_property_def or_else_def)

lemma counter_step:
  assumes "plain_severity f" and "th \<noteq> ''__proto__''" and "counter m th = Number n"
  shows "counter (count_finding m f) th =
         Number (n + (if str_or (theme f) ''other'' = th then penalty_of f else 0))"
proof (cases "str_or (theme f) ''other'' = th")
  case True
  have "count_finding m f = set_property m th (js_add (counter m th) (Number (penalty_of f)))"
    using True plain_penalty [OF assms(1)] by (simp add: count_finding_def Let_def counter_def)
  then show ?thesis
    using True assms(2,3) by (simp add: counter_set_same)
next
  case False
  then have "get_property (count_finding m f) th = get_property m th"
    by (simp add: count_finding_def set_property_def get_property_def Let_def)
  with False assms(3) show ?thesis
    by (simp add: counter_def)
qed

lemma counter_foldl:
  assumes "\<forall>f \<in> set fs. plain_severity f" and "th \<noteq> ''__proto__''" and "counter m th = Number n"
  shows "counter (foldl count_finding m fs) th = Number (n + penaltySum fs th)"
  using assms
proof (induction fs arbitrary: m n)
  case Nil
  then show ?case by (simp add: penaltySum_def)
next
  case (Cons f fs)
  let ?d = "if str_or (theme f) ''other'' = th then penalty_of f else 0"
  have "counter (count_finding m f) th = Number (n + ?d)"
    using Cons.prems by (intro counter_step) simp_all
  then have "counter (foldl count_finding (count_finding m f) fs) th = Number (n + ?d + penaltySum fs th)"
    using Cons.prems by (intro Cons.IH) simp_all
  then show ?case
    by (simp add: penaltySum_def)
qed

lemma floors_number:
  "th \<in> set categoryKeys \<Longrightarrow>
   nullish (get_property (detectSoftFloors rawText) th) (Number 0) = Number (soft_floor rawText th) \<and>
   soft_floor rawText th \<in> {0, 20}"
  by (auto simp: categoryKeys_def soft_floor_def detectSoftFloors_def get_property_def nullish_def Let_def)

lemma penalty_of_nonneg: "0 \<le> penalty_of f"
  by (simp add: penalty_of_def Let_def)

lemma penaltySum_nonneg: "0 \<le> penaltySum fs th"
  unfolding penaltySum_def by (induction fs) (simp_all add: penalty_of_nonneg)

text \<open>
  Where every severity is plain, each category score is the number
  \<open>max (max 0 (100 - penaltySum)) floor\<close>, between 0 and 100.
\<close>

lemma category_score_formula:
  assumes "\<forall>f \<in> set fs. plain_severity f" and "th \<in> set categoryKeys"
  shows "category_score (foldl count_finding Map.empty fs) (detectSoftFloors rawText) th =
           Number (max (max 0 (100 - penaltySum fs th)) (soft_floor rawText th))"
    and "0 \<le> max (max 0 (100 - penaltySum fs th)) (soft_floor rawText th)"
    and "max (max 0 (100 - penaltySum fs th)) (soft_floor rawText th) \<le> 100"
proof -
  have np: "th \<noteq> ''__proto__''"
    using assms(2) by (auto simp: categoryKeys_def)
  have "counter Map.empty th = Number 0"
    using assms(2) by (auto simp: counter_def get_property_def or_else_def categoryKeys_def objectPrototypeKeys_def)
  then have c: "counter (foldl count_finding Map.empty fs) th = Number (0 + penaltySum fs th)"
    using assms(1) np by (intro counter_foldl)
  have fl: "nullish (get_property (detectSoftFloors rawText) th) (Number 0) = Number (soft_floor rawText th)"
    and fr: "soft_floor rawText th \<in> {0, 20}"
    using floors_number [OF assms(2)] by simp_all
  show "category_score (foldl count_finding Map.empty fs) (detectSoftFloors rawText) th =
           Number (max (max 0 (100 - penaltySum fs th)) (soft_floor rawText th))"
    using c fl by (simp add: category_score_def Let_def counter_def)
  show "0 \<le> max (max 0 (100 - penaltySum fs th)) (soft_floor rawText th)"
    by simp
  show "max (max 0 (100 - penaltySum fs th)) (soft_floor rawText th) \<le> 100"
    using fr penaltySum_nonneg [of fs th] by auto
qed

text \<open>
  Claim C3 says that every category score is \<open>max (max 0 (100 - penaltySum)) floor\<close>,
  an unrecognised severity counting 4. For one privacy finding of severity
  \<^verbatim>\<open>constructor\<close> on the empty text that would be 96; the code reads the inherited
  member of the penalty table instead, and the privacy score and the overall score are
  not numbers.
\<close>

theorem inherited_severity_key_breaks_score:
  "privacy_app (scores (aggregate config_weights
      [bare\<lparr>theme := Some ''privacy_app'', severity := Some ''constructor''\<rparr>] [] [])) = NotANumber \<and>
   overall (scores (aggregate config_weights
      [bare\<lparr>theme := Some ''privacy_app'', severity := Some ''constructor''\<rparr>] [] [])) = NaN \<and>
   max (max 0 (100 - penaltySum [bare\<lparr>theme := Some ''privacy_app'', severity := Some ''constructor''\<rparr>] ''privacy_app''))
     (soft_floor [] ''privacy_app'') = 96"
  by code_simp

section \<open>The remediation plan\<close>

lemma js_slice_take: "0 \<le> n \<Longrightarrow> js_slice xs 0 n = take (nat n) xs"
  by (simp add: js_slice_def Let_def min_def)

lemma key_empty_iff: "js_slice s 0 200 = [] \<longleftrightarrow> s = []"
  by (simp add: js_slice_take)

lemma dedupe_step_skip: "\<not> kept f \<Longrightarrow> dedupe_step rnd st f = st"
  by (simp add: dedupe_step_def kept_def key_empty_iff Let_def)

lemma foldl_dedupe_filter:
  "foldl (dedupe_step rnd) st fs = foldl (dedupe_step rnd) st (filter kept fs)"
  by (induction fs arbitrary: st) (simp_all add: dedupe_step_skip)

lemma dedupe_step_entries:
  assumes "e \<in> set (fst (dedupe_step rnd st f))"
  shows "e \<in> set (fst st) \<or>
         (kept f \<and> fst e = item_key (snd e) \<and>
          recommendation_item (snd e) = str_or (recommendation f) [] \<and>
          severity_item (snd e) = str_or (severity f) ''medium'')"
  using assms
  by (auto simp: dedupe_step_def Let_def kept_def item_key_def key_empty_iff map_of_eq_None_iff
           split: if_splits)

lemma foldl_dedupe_entries:
  assumes "e \<in> set (fst (foldl (dedupe_step rnd) st fs))"
  shows "e \<in> set (fst st) \<or>
         (\<exists>f \<in> set fs. kept f \<and> fst e = item_key (snd e) \<and>
            recommendation_item (snd e) = str_or (recommendation f) [] \<and>
            severity_item (snd e) = str_or (severity f) ''medium'')"
  using assms
proof (induction fs arbitrary: st)
  case Nil
  then show ?case by simp
next
  case (Cons f fs)
  from Cons.prems have "e \<in> set (fst (foldl (dedupe_step rnd) (dedupe_step rnd st f) fs))"
    by simp
  from Cons.IH [OF this] show ?case
    using dedupe_step_entries [of e rnd st f] by auto
qed

lemma dedupe_step_distinct:
  assumes "distinct (map fst (fst st))"
  shows "distinct (map fst (fst (dedupe_step rnd st f)))"
  using assms by (auto simp: dedupe_step_def Let_def map_of_eq_None_iff)

lemma foldl_dedupe_distinct:
  "distinct (map fst (fst st)) \<Longrightarrow> distinct (map fst (fst (foldl (dedupe_step rnd) st fs)))"
  by (induction fs arbitrary: st) (simp_all add: dedupe_step_distinct)

lemma dedupe_keys:
  "map item_key (fst (dedupeRecommendations rnd k fs)) =
   map fst (fst (foldl (dedupe_step rnd) ([], k) fs))"
proof -
  have "\<forall>e \<in> set (fst (foldl (dedupe_step rnd) ([], k) fs)). fst e = item_key (snd e)"
    using foldl_dedupe_entries [of _ rnd "([], k)" fs] by auto
  then show ?thesis
    by (simp add: dedupeRecommendations_def Let_def)
qed

lemma dedupe_distinct: "distinct (map item_key (fst (dedupeRecommendations rnd k fs)))"
  by (simp add: dedupe_keys foldl_dedupe_distinct)

lemma set_insert_sorted: "set (insert_sorted cmp x ys) = insert x (set ys)"
  by (induction ys) auto

lemma set_array_sort: "set (array_sort cmp xs) = set xs"
  unfolding array_sort_def by (induction xs) (simp_all add: set_insert_sorted)

lemma distinct_insert_sorted:
  "distinct (map g (insert_sorted cmp x ys)) \<longleftrightarrow> g x \<notin> g ` set ys \<and> distinct (map g ys)"
  by (induction ys) (auto simp: set_insert_sorted)

lemma distinct_array_sort: "distinct (map g (array_sort cmp xs)) \<longleftrightarrow> distinct (map g xs)"
  unfolding array_sort_def
  by (induction xs) (simp_all add: distinct_insert_sorted set_array_sort [unfolded array_sort_def])

lemma rank_plain:
  "toLowerCase s \<notin> set objectPrototypeKeys \<Longrightarrow> severityRank (Some s) = Number (claimed_rank s)"
  by (simp add: severityRank_def claimed_rank_def rankTable_def get_property_def nullish_def Let_def)

lemma compare_plain:
  "plain_item a \<Longrightarrow> plain_item b \<Longrightarrow>
   sort_order (compare_severity a b) = claimed_rank (severity_item a) - claimed_rank (severity_item b)"
  by (simp add: compare_severity_def plain_item_def rank_plain sort_order_def)

lemma sorted_insert_sorted:
  assumes "plain_item x" and "\<forall>y \<in> set ys. plain_item y"
    and "sorted (map (\<lambda>r. claimed_rank (severity_item r)) ys)"
  shows "sorted (map (\<lambda>r. claimed_rank (severity_item r)) (insert_sorted compare_severity x ys))"
  using assms
proof (induction ys)
  case Nil
  then show ?case by simp
next
  case (Cons y ys)
  show ?case
  proof (cases "sort_order (compare_severity x y) \<le> 0")
    case True
    then have "claimed_rank (severity_item x) \<le> claimed_rank (severity_item y)"
      using Cons.prems by (simp add: compare_plain)
    with True Cons.prems show ?thesis by auto
  next
    case False
    then have "claimed_rank (severity_item y) \<le> claimed_rank (severity_item x)"
      using Cons.prems by (simp add: compare_plain)
    with False Cons show ?thesis by (auto simp: set_insert_sorted)
  qed
qed

lemma sorted_array_sort:
  "\<forall>y \<in> set xs. plain_item y \<Longrightarrow>
   sorted (map (\<lambda>r. claimed_rank (severity_item r)) (array_sort compare_severity xs))"
proof (induction xs)
  case Nil
  then show ?case by (simp add: array_sort_def)
next
  case (Cons x xs)
  then have "sorted (map (\<lambda>r. claimed_rank (severity_item r))
               (insert_sorted compare_severity x (array_sort compare_severity xs)))"
    by (intro sorted_insert_sorted) (simp_all add: set_array_sort)
  then show ?case by (simp add: array_sort_def)
qed

lemma plan_is_take:
  "fst (plan_of rnd k fs) = take 6 (array_sort compare_severity (fst (dedupeRecommendations rnd k fs)))"
  by (simp add: plan_of_def Let_def js_slice_take)

text \<open>
  The plan has at most six items and no two with the same dedup key, for every finding
  list; it is sorted by the claimed rank where no severity is a key of
  \<^verbatim>\<open>Object.prototype\<close>.
\<close>

lemma plan_length: "length (fst (plan_of rnd k fs)) \<le> 6"
  by (simp add: plan_is_take)

lemma plan_distinct: "distinct (map item_key (fst (plan_of rnd k fs)))"
  unfolding plan_is_take take_map [symmetric]
  by (intro distinct_take) (simp add: distinct_array_sort dedupe_distinct)

lemma dedupe_items_plain:
  assumes "\<forall>f \<in> set fs. toLowerCase (str_or (severity f) ''medium'') \<notin> set objectPrototypeKeys"
    and "r \<in> set (fst (dedupeRecommendations rnd k fs))"
  shows "plain_item r"
proof -
  from assms(2) obtain e where e: "e \<in> set (fst (foldl (dedupe_step rnd) ([], k) fs))" "r = snd e"
    by (auto simp: dedupeRecommendations_def Let_def)
  from foldl_dedupe_entries [OF e(1)] obtain f where "f \<in> set fs"
    "severity_item (snd e) = str_or (severity f) ''medium''"
    by auto
  with assms(1) e(2) show ?thesis
    by (simp add: plain_item_def)
qed

lemma plan_sorted:
  assumes "\<forall>f \<in> set fs. toLowerCase (str_or (severity f) ''medium'') \<notin> set objectPrototypeKeys"
  shows "sorted (map (\<lambda>r. claimed_rank (severity_item r)) (fst (plan_of rnd k fs)))"
proof -
  have "\<forall>y \<in> set (fst (dedupeRecommendations rnd k fs)). plain_item y"
    using assms dedupe_items_plain by blast
  then have "sorted (map (\<lambda>r. claimed_rank (severity_item r))
               (array_sort compare_severity (fst (dedupeRecommendations rnd k fs))))"
    by (rule sorted_array_sort)
  then show ?thesis
    unfolding plan_is_take take_map [symmetric] by (rule sorted_wrt_take)
qed

text \<open>
  Claim C4 says that the plan is sorted by the severity rank, anything but high, medium
  and low ranking 3. For three findings of severities low, \<^verbatim>\<open>constructor\<close> and high the
  rank of the second is an inherited member, the comparator yields no number, and the
  plan keeps the order low, \<^verbatim>\<open>constructor\<close>, high: the claimed ranks 2, 3, 0.
\<close>

theorem inherited_severity_key_breaks_order:
  "map severity_item (fst (plan_of decimal 0
      [bare\<lparr>severity := Some ''low'', recommendation := Some ''Rotate keys''\<rparr>,
       bare\<lparr>severity := Some ''constructor'', recommendation := Some ''Publish notice''\<rparr>,
       bare\<lparr>severity := Some ''high'', recommendation := Some ''Encrypt backups''\<rparr>]))
   = [''low'', ''constructor'', ''high''] \<and>
   map claimed_rank [''low'', ''constructor'', ''high''] = [2, 3, 0] \<and>
   severityRank (Some ''constructor'') = Inherited"
  by code_simp

text \<open>
  With two findings, of severities \<^verbatim>\<open>constructor\<close> and high, the only pair that a sort can
  compare yields no number, so that the order stays as it is and the claimed ranks are
  3, 0.
\<close>

lemma inherited_key_two_items:
  "js_sub (severityRank (Some ''constructor'')) (severityRank (Some ''high'')) = NotANumber \<and>
   js_sub (severityRank (Some ''high'')) (severityRank (Some ''constructor'')) = NotANumber \<and>
   map severity_item (fst (plan_of decimal 0
      [bare\<lparr>severity := Some ''constructor'', recommendation := Some ''Publish notice''\<rparr>,
       bare\<lparr>severity := Some ''high'', recommendation := Some ''Encrypt backups''\<rparr>]))
   = [''constructor'', ''high''] \<and>
   map claimed_rank [''constructor'', ''high''] = [3, 0]"
  by code_simp

text \<open>
  Claim C9. The findings whose recommendation is absent or empty do not contribute to
  \<open>dedupeRecommendations\<close>: removing them changes neither the items nor the draws.
  Every item comes from a finding with a non-empty recommendation and carries that
  finding's severity, or \<^verbatim>\<open>medium\<close> when the finding has none; in particular a step on a
  finding without severity adds only an item of severity \<^verbatim>\<open>medium\<close>.
\<close>

theorem empty_recommendation_skipped:
  "dedupeRecommendations rnd k fs = dedupeRecommendations rnd k (filter kept fs) \<and>
   (\<forall>item \<in> set (fst (dedupeRecommendations rnd k fs)).
      \<exists>f \<in> set fs. kept f \<and> recommendation_item item = str_or (recommendation f) [] \<and>
        severity_item item = str_or (severity f) ''medium'') \<and>
   (severity f = None \<longrightarrow>
      (\<forall>e \<in> set (fst (dedupe_step rnd st f)). e \<in> set (fst st) \<or> severity_item (snd e) = ''medium''))"
proof (intro conjI ballI impI)
  show "dedupeRecommendations rnd k fs = dedupeRecommendations rnd k (filter kept fs)"
    unfolding dedupeRecommendations_def by (subst foldl_dedupe_filter) (rule refl)
next
  fix item
  assume "item \<in> set (fst (dedupeRecommendations rnd k fs))"
  then obtain e where e: "e \<in> set (fst (foldl (dedupe_step rnd) ([], k) fs))" "item = snd e"
    by (auto simp: dedupeRecommendations_def Let_def)
  from foldl_dedupe_entries [OF e(1)] e(2)
  show "\<exists>f \<in> set fs. kept f \<and> recommendation_item item = str_or (recommendation f) [] \<and>
          severity_item item = str_or (severity f) ''medium''"
    by auto
next
  fix e
  assume "severity f = None" and "e \<in> set (fst (dedupe_step rnd st f))"
  then show "e \<in> set (fst st) \<or> severity_item (snd e) = ''medium''"
    using dedupe_step_entries [of e rnd st f] by (auto simp: str_or_def)
qed

theorem empty_recommendation_skipped_witness:
  "fst (dedupeRecommendations decimal 0
      [bare, bare\<lparr>recommendation := Some ''Fix it''\<rparr>, bare\<lparr>recommendation := Some [], severity := Some ''high''\<rparr>])
   = [\<lparr>id_item = ''R-0'', title_item = ''Fix it'', severity_item = ''medium'', recommendation_item = ''Fix it''\<rparr>]"
proof -
  let ?fs = "[bare, bare\<lparr>recommendation := Some ''Fix it''\<rparr>, bare\<lparr>recommendation := Some [], severity := Some ''high''\<rparr>]"
  have "dedupeRecommendations decimal 0 ?fs = dedupeRecommendations decimal 0 (filter kept ?fs)"
    by (rule empty_recommendation_skipped [where rnd = decimal and k = 0 and fs = ?fs, THEN conjunct1])
  moreover have "filter kept ?fs = [bare\<lparr>recommendation := Some ''Fix it''\<rparr>]"
    by (simp add: kept_def bare_def str_or_def)
  moreover have "fst (dedupeRecommendations decimal 0 [bare\<lparr>recommendation := Some ''Fix it''\<rparr>])
     = [\<lparr>id_item = ''R-0'', title_item = ''Fix it'', severity_item = ''medium'', recommendation_item = ''Fix it''\<rparr>]"
    by code_simp
  ultimately show ?thesis by simp
qed

section \<open>Line markers in the chunks\<close>

lemma starts_with_append: "starts_with (n @ s) n"
  by (induction n) auto

lemma includes_str_starts: "starts_with s n \<Longrightarrow> includes_str s n"
  by (cases s; cases n) auto

lemma includes_str_append: "includes_str (p @ n @ s) n"
proof (induction p)
  case Nil
  show ?case by (simp add: includes_str_starts starts_with_append)
next
  case (Cons c p)
  then show ?case by simp
qed

lemma starts_with_decompose: "starts_with s n \<Longrightarrow> \<exists>q. s = n @ q"
  by (induction s n rule: starts_with.induct) auto

lemma includes_str_decompose: "includes_str s n \<Longrightarrow> \<exists>p q. s = p @ n @ q"
proof (induction s)
  case Nil
  then show ?case by simp
next
  case (Cons c s)
  from Cons.prems consider "starts_with (c # s) n" | "includes_str s n" by auto
  then show ?case
  proof cases
    case 1
    then obtain q where "c # s = n @ q" using starts_with_decompose by blast
    then have "c # s = [] @ n @ q" by simp
    then show ?thesis by blast
  next
    case 2
    with Cons.IH obtain p q where "s = p @ n @ q" by blast
    then have "c # s = (c # p) @ n @ q" by simp
    then show ?thesis by blast
  qed
qed

text \<open>\<open>includes_str\<close> is the search for a contiguous occurrence.\<close>

lemma includes_str_iff: "includes_str s n \<longleftrightarrow> (\<exists>p q. s = p @ n @ q)"
  using includes_str_decompose includes_str_append by blast

lemma join_marker:
  assumes "j < length ls"
  shows "\<exists>pre post. join sep (map (\<lambda>(index, line). line_marker (index + 1) @ line) (enumerate k ls))
           = pre @ line_marker (k + j + 1) @ post"
  using assms
proof (induction ls arbitrary: k j)
  case Nil
  then show ?case by simp
next
  case (Cons l ls)
  let ?f = "\<lambda>(index, line). line_marker (index + 1) @ line"
  show ?case
  proof (cases j)
    case 0
    show ?thesis
    proof (cases ls)
      case Nil
      then have "join sep (map ?f (enumerate k (l # ls))) = [] @ line_marker (k + j + 1) @ l"
        using 0 by simp
      then show ?thesis by blast
    next
      case (Cons l' ls')
      then have "join sep (map ?f (enumerate k (l # ls)))
                   = [] @ line_marker (k + j + 1) @ (l @ sep @ join sep (map ?f (enumerate (Suc k) ls)))"
        using 0 by simp
      then show ?thesis by blast
    qed
  next
    case (Suc j')
    with Cons.prems have "j' < length ls" by simp
    from Cons.IH [OF this, of "Suc k"] obtain pre post where
      ih: "join sep (map ?f (enumerate (Suc k) ls)) = pre @ line_marker (Suc k + j' + 1) @ post"
      by blast
    from \<open>j' < length ls\<close> obtain l' ls' where ls: "ls = l' # ls'"
      by (cases ls) auto
    have "join sep (map ?f (enumerate k (l # ls)))
            = (line_marker (k + 1) @ l) @ sep @ join sep (map ?f (enumerate (Suc k) ls))"
      unfolding ls by simp
    also have "\<dots> = (line_marker (k + 1) @ l @ sep @ pre) @ line_marker (k + j + 1) @ post"
      using ih Suc by simp
    finally show ?thesis by blast
  qed
qed

lemma indexedText_marker:
  assumes "1 \<le> n" and "n \<le> length (split_on newline rawText)"
  shows "\<exists>pre post. indexedText rawText = pre @ line_marker n @ post"
proof -
  from assms have "n - 1 < length (split_on newline rawText)" by simp
  from join_marker [OF this, of "[newline]" 0] assms(1) show ?thesis
    by (simp add: indexedText_def indexed_lines_def)
qed

lemma js_slice_window:
  assumes "i \<le> length xs" and "0 \<le> n"
  shows "js_slice xs (int i) (int i + n) = take (nat n) (drop i xs)"
proof (cases "int i + n \<le> int (length xs)")
  case True
  then have "nat (int i + n - int i) = nat n" by simp
  with True assms show ?thesis
    by (simp add: js_slice_def Let_def min_def)
next
  case False
  then have "length (drop i xs) \<le> nat n" by simp
  then have "take (nat n) (drop i xs) = drop i xs" by simp
  moreover have "nat (int (length xs) - int i) = length xs - i" by simp
  ultimately show ?thesis
    using False assms by (simp add: js_slice_def Let_def min_def)
qed

lemma chunk_loop_subset: "set out \<subseteq> set (chunk_loop indexed size' overlap i out)"
proof (induction indexed size' overlap i out rule: chunk_loop.induct)
  case (1 indexed size' overlap i out)
  show ?case
  proof (cases "i < length indexed")
    case True
    with 1 show ?thesis
      by (subst chunk_loop.simps) (auto simp: Let_def)
  next
    case False
    then show ?thesis
      by (subst chunk_loop.simps) (simp add: Let_def)
  qed
qed

lemma window_holds_marker:
  assumes "indexed = pre @ m @ post" and "i \<le> length pre" and "0 \<le> n"
    and "int (length pre) + int (length m) \<le> int i + n"
  shows "includes_str (js_slice indexed (int i) (int i + n)) m"
proof -
  have "i \<le> length indexed" using assms(1,2) by simp
  then have "js_slice indexed (int i) (int i + n) = take (nat n) (drop i indexed)"
    using assms(3) by (rule js_slice_window)
  also have "drop i indexed = drop i pre @ m @ post"
    using assms(1,2) by simp
  also have "take (nat n) (drop i pre @ m @ post) = drop i pre @ m @ take (nat n - (length pre - i) - length m) post"
    using assms(2,4) by simp
  finally show ?thesis
    by (simp add: includes_str_append)
qed

lemma chunk_loop_covers:
  assumes "indexed = pre @ m @ post" and "m \<noteq> []" and "0 \<le> overlap" and "overlap < size'"
    and "int (length m) \<le> overlap + 1" and "i \<le> length pre"
  shows "\<exists>c \<in> set (chunk_loop indexed size' overlap i out). includes_str c m"
  using assms
proof (induction indexed size' overlap i out rule: chunk_loop.induct)
  case (1 indexed size' overlap i out)
  let ?step = "nat (max 1 (size' - overlap))"
  let ?c = "js_slice indexed (int i) (int i + size')"
  have lt: "i < length indexed" using "1.prems" by (cases m) auto
  have unfold: "chunk_loop indexed size' overlap i out = chunk_loop indexed size' overlap (i + ?step) (out @ [?c])"
    using lt by (subst chunk_loop.simps) (simp add: Let_def)
  have step: "int ?step = size' - overlap" using "1.prems" by simp
  show ?case
  proof (cases "length pre < i + ?step")
    case True
    then have "int (length pre) + int (length m) \<le> int i + size'"
      using step "1.prems"(5) by linarith
    then have "includes_str ?c m"
      using "1.prems" by (intro window_holds_marker [where pre = pre and post = post]) simp_all
    moreover have "?c \<in> set (chunk_loop indexed size' overlap (i + ?step) (out @ [?c]))"
      using chunk_loop_subset [of "out @ [?c]"] by auto
    ultimately show ?thesis unfolding unfold by blast
  next
    case False
    then have "i + ?step \<le> length pre" by simp
    then have "\<exists>c \<in> set (chunk_loop indexed size' overlap (i + ?step) (out @ [?c])). includes_str c m"
      using "1.prems" lt by (intro "1.IH") simp_all
    then show ?thesis unfolding unfold .
  qed
qed

lemma chunk_loop_whole:
  assumes "indexed \<noteq> []" and "int (length indexed) \<le> size'"
  shows "indexed \<in> set (chunk_loop indexed size' overlap 0 [])"
proof -
  let ?step = "nat (max 1 (size' - overlap))"
  have "js_slice indexed 0 size' = indexed"
    using assms by (simp add: js_slice_def Let_def min_def)
  then have "chunk_loop indexed size' overlap 0 [] = chunk_loop indexed size' overlap ?step [indexed]"
    using assms(1) by (subst chunk_loop.simps) (simp add: Let_def)
  then show ?thesis
    using chunk_loop_subset [of "[indexed]" indexed size' overlap ?step] by simp
qed

lemma line_marker_not_Nil: "line_marker n \<noteq> []"
  by (simp add: line_marker_def)

text \<open>
  Claim C6, amended. For every text, every chunk size above zero and every overlap from
  zero to below the size, \<open>chunkByChar\<close> returns at least one chunk, and the marker of
  each line appears whole in at least one chunk provided the marker is at most one
  character longer than the overlap, or the indexed text fits into one chunk.
\<close>

theorem markers_survive:
  assumes "0 < size'" and "0 \<le> overlap" and "overlap < size'"
  shows "chunkByChar rawText size' overlap \<noteq> [] \<and>
         (\<forall>n. 1 \<le> n \<and> n \<le> length (split_on newline rawText) \<and>
              (int (length (line_marker n)) \<le> overlap + 1 \<or> int (length (indexedText rawText)) \<le> size')
              \<longrightarrow> (\<exists>c \<in> set (chunkByChar rawText size' overlap). includes_str c (line_marker n)))"
proof -
  let ?ix = "indexedText rawText"
  have ne: "?ix \<noteq> []"
    using indexedText_prefix [of rawText] by auto
  then have loop: "chunk_loop ?ix size' overlap 0 [] \<noteq> []"
    by (rule chunk_loop_first)
  then have eq: "chunkByChar rawText size' overlap = chunk_loop ?ix size' overlap 0 []"
    by (simp add: chunkByChar_def Let_def)
  have "\<exists>c \<in> set (chunk_loop ?ix size' overlap 0 []). includes_str c (line_marker n)"
    if n: "1 \<le> n" "n \<le> length (split_on newline rawText)"
      and fit: "int (length (line_marker n)) \<le> overlap + 1 \<or> int (length ?ix) \<le> size'" for n
  proof -
    from indexedText_marker [OF n] obtain pre post where d: "?ix = pre @ line_marker n @ post"
      by blast
    from fit show ?thesis
    proof
      assume "int (length (line_marker n)) \<le> overlap + 1"
      then show ?thesis
        using d assms by (intro chunk_loop_covers [where pre = pre and post = post])
          (simp_all add: line_marker_not_Nil)
    next
      assume "int (length ?ix) \<le> size'"
      with ne have "?ix \<in> set (chunk_loop ?ix size' overlap 0 [])"
        by (rule chunk_loop_whole)
      moreover have "includes_str ?ix (line_marker n)"
        by (subst d) (rule includes_str_append)
      ultimately show ?thesis by blast
    qed
  qed
  with loop eq show ?thesis by simp
qed

lemma two_lines_facts:
  "length (split_on newline two_lines) = 2" "length (line_marker 2) = 9"
  by code_simp+

theorem markers_survive_witness:
  "chunkByChar two_lines 12 8 \<noteq> [] \<and>
   (\<exists>c \<in> set (chunkByChar two_lines 12 8). includes_str c (line_marker 2))"
  using markers_survive [of 12 8 two_lines] two_lines_facts by simp

text \<open>
  Claim C6 as stated puts no condition on the marker. With size 1 and overlap 0 the empty
  text yields nine chunks of one character, none of which holds the marker of line 1.
\<close>

theorem marker_split_by_small_window:
  "(0::int) < 1 \<and> (0::int) \<le> 0 \<and> (1::nat) \<le> length (split_on newline []) \<and>
   chunkByChar [] 1 0 = [''['', ''L'', ''I'', ''N'', ''E'', '' '', ''1'', '']'', '' ''] \<and>
   \<not> list_ex (\<lambda>c. includes_str c (line_marker 1)) (chunkByChar [] 1 0)"
  by code_simp

section \<open>Gap filling\<close>

lemma have_needle_iff: "have_needle fs n \<longleftrightarrow> (\<exists>f \<in> set fs. mentions f n)"
  by (simp add: have_needle_def mentions_def list_ex_iff)

lemma has_title_iff: "has_title fs t \<longleftrightarrow> (\<exists>f \<in> set fs. title f = Some t)"
  by (simp add: has_title_def list_ex_iff)

lemma mentions_mk:
  "mentions (mk r th ti st sv ev im rc rf cf) n = includes_str (toLowerCase (th @ '':'' @ ti)) n"
  by (simp add: mentions_def mk_def template_part_def)

lemma title_mk: "title (mk r th ti st sv ev im rc rf cf) = Some ti"
  by (simp add: mk_def)

lemma set_add: "set (add fs f) \<subseteq> insert f (set fs)" "set fs \<subseteq> set (add fs f)"
  by (auto simp: add_def)

lemma prefix_add: "prefix fs (add fs f)"
  by (simp add: add_def)

lemma add_has_title:
  assumes "title f = Some t" and "t \<noteq> []"
  shows "has_title (add fs f) t"
proof (cases "list_ex (\<lambda>x. str_or (title x) [] = str_or (title f) []) fs")
  case True
  then obtain x where x: "x \<in> set fs" "str_or (title x) [] = t"
    using assms by (auto simp: list_ex_iff str_or_def)
  with assms(2) have "title x = Some t"
    by (auto simp: str_or_def split: option.splits if_splits)
  with x(1) True show ?thesis
    by (auto simp: add_def has_title_iff)
next
  case False
  with assms(1) show ?thesis
    by (simp add: add_def has_title_iff)
qed

lemma step_prefix:
  "prefix fs (fst g) \<Longrightarrow>
   prefix fs (fst (if c then add_mk rnd g th ti st sv ev im rc rf cf else g))"
  using prefix_add prefix_order.trans by (fastforce simp: add_mk_def)

lemma step_title_mono:
  "has_title (fst g) t \<Longrightarrow>
   has_title (fst (if c then add_mk rnd g th ti st sv ev im rc rf cf else g)) t"
  using set_add(2) by (fastforce simp: add_mk_def has_title_iff)

lemma step_have_mono:
  "have_needle (fst g) n \<Longrightarrow>
   have_needle (fst (if c then add_mk rnd g th ti st sv ev im rc rf cf else g)) n"
  using set_add(2) by (fastforce simp: add_mk_def have_needle_iff)

lemma step_not_have:
  assumes "\<not> have_needle (fst g) n" and "\<not> includes_str (toLowerCase (th @ '':'' @ ti)) n"
  shows "\<not> have_needle (fst (if c then add_mk rnd g th ti st sv ev im rc rf cf else g)) n"
proof (cases c)
  case True
  have "set (add (fst g) (mk (rnd (snd g)) th ti st sv ev im rc rf cf))
          \<subseteq> insert (mk (rnd (snd g)) th ti st sv ev im rc rf cf) (set (fst g))"
    by (rule set_add(1))
  with assms True show ?thesis
    by (auto simp: add_mk_def have_needle_iff mentions_mk)
next
  case False
  with assms(1) show ?thesis by simp
qed

lemma step_establish_title:
  assumes "ti \<noteq> []" and "c"
  shows "has_title (fst (if c then add_mk rnd g th ti st sv ev im rc rf cf else g)) ti"
  using assms by (simp add: add_mk_def add_has_title title_mk)

lemma mentions_of_title:
  assumes "title x = Some ti" and "includes_str (toLowerCase ti) n"
  shows "mentions x n"
proof -
  from assms(2) obtain p q where "toLowerCase ti = p @ n @ q"
    using includes_str_iff by blast
  then have "toLowerCase (template_part (theme x) @ '':'' @ ti)
               = (toLowerCase (template_part (theme x) @ '':'') @ p) @ n @ q"
    by (simp add: toLowerCase_def)
  then have "includes_str (toLowerCase (template_part (theme x) @ '':'' @ ti)) n"
    by (simp only: includes_str_append)
  with assms(1) show ?thesis
    by (simp add: mentions_def template_part_def)
qed

lemma step_establish_have:
  assumes "ti \<noteq> []" and "includes_str (toLowerCase ti) n"
  shows "have_needle (fst (if \<not> have_needle (fst g) n then add_mk rnd g th ti st sv ev im rc rf cf else g)) n"
proof (cases "have_needle (fst g) n")
  case True
  then show ?thesis by simp
next
  case False
  let ?f = "mk (rnd (snd g)) th ti st sv ev im rc rf cf"
  have "has_title (add (fst g) ?f) ti"
    using assms(1) by (simp add: add_has_title title_mk)
  then obtain x where "x \<in> set (add (fst g) ?f)" "title x = Some ti"
    by (auto simp: has_title_iff)
  then have "have_needle (add (fst g) ?f) n"
    using mentions_of_title [OF _ assms(2)] by (auto simp: have_needle_iff)
  with False show ?thesis
    by (simp add: add_mk_def)
qed

lemma needles_in_titles:
  "includes_str (toLowerCase ''APP 5 collection notice'') ''app 5''"
  "includes_str (toLowerCase ''APP 11 security of personal information'') ''app 11''"
  "includes_str (toLowerCase ''APP 12 access to personal information'') ''access to personal''"
  "includes_str (toLowerCase ''APP 13 correction of personal information'') ''correction''"
  by code_simp+

lemma needles_apart:
  "\<not> includes_str (toLowerCase (''privacy_app'' @ '':'' @ ''APP 5 collection notice'')) ''app 11''"
  "\<not> includes_str (toLowerCase (''privacy_app'' @ '':'' @ ''APP 5 collection notice'')) ''access to personal''"
  "\<not> includes_str (toLowerCase (''privacy_app'' @ '':'' @ ''APP 5 collection notice'')) ''correction''"
  "\<not> includes_str (toLowerCase (''privacy_app'' @ '':'' @ ''APP 11 security of personal information'')) ''access to personal''"
  "\<not> includes_str (toLowerCase (''privacy_app'' @ '':'' @ ''APP 11 security of personal information'')) ''correction''"
  "\<not> includes_str (toLowerCase (''privacy_app'' @ '':'' @ ''APP 12 access to personal information'')) ''correction''"
  by code_simp+

lemma gap_prefix: "prefix fs (fst (ensureMinimumAU rnd k fs rawText))"
  unfolding ensureMinimumAU_def Let_def
  by (intro step_prefix) simp

lemma gap_have_5: "have_needle (fst (ensureMinimumAU rnd k fs rawText)) ''app 5''"
  unfolding ensureMinimumAU_def Let_def
  apply (rule step_have_mono)
  apply (rule step_have_mono)
  apply (rule step_have_mono)
  apply (rule step_have_mono)
  apply (rule step_establish_have)
   apply simp
  apply (rule needles_in_titles)
  done

lemma gap_have_11: "have_needle (fst (ensureMinimumAU rnd k fs rawText)) ''app 11''"
  unfolding ensureMinimumAU_def Let_def
  apply (rule step_have_mono)
  apply (rule step_have_mono)
  apply (rule step_have_mono)
  apply (rule step_establish_have)
   apply simp
  apply (rule needles_in_titles)
  done

lemma gap_have_12: "have_needle (fst (ensureMinimumAU rnd k fs rawText)) ''access to personal''"
  unfolding ensureMinimumAU_def Let_def
  apply (rule step_have_mono)
  apply (rule step_have_mono)
  apply (rule step_establish_have)
   apply simp
  apply (rule needles_in_titles)
  done

lemma gap_have_13: "have_needle (fst (ensureMinimumAU rnd k fs rawText)) ''correction''"
  unfolding ensureMinimumAU_def Let_def
  apply (rule step_have_mono)
  apply (rule step_establish_have)
   apply simp
  apply (rule needles_in_titles)
  done

lemma gap_title_5:
  assumes "\<not> have_needle fs ''app 5''"
  shows "has_title (fst (ensureMinimumAU rnd k fs rawText)) ''APP 5 collection notice''"
  unfolding ensureMinimumAU_def Let_def
  apply (rule step_title_mono)
  apply (rule step_title_mono)
  apply (rule step_title_mono)
  apply (rule step_title_mono)
  apply (rule step_establish_title)
   apply simp
  apply (simp add: assms)
  done

lemma gap_title_11:
  assumes "\<not> have_needle fs ''app 11''"
  shows "has_title (fst (ensureMinimumAU rnd k fs rawText)) ''APP 11 security of personal information''"
  unfolding ensureMinimumAU_def Let_def
  apply (rule step_title_mono)
  apply (rule step_title_mono)
  apply (rule step_title_mono)
  apply (rule step_establish_title)
   apply simp
  apply (rule step_not_have)
   apply (simp add: assms)
  apply (rule needles_apart)
  done

lemma gap_title_12:
  assumes "\<not> have_needle fs ''access to personal''"
  shows "has_title (fst (ensureMinimumAU rnd k fs rawText)) ''APP 12 access to personal information''"
  unfolding ensureMinimumAU_def Let_def
  apply (rule step_title_mono)
  apply (rule step_title_mono)
  apply (rule step_establish_title)
   apply simp
  apply (rule step_not_have)
   apply (rule step_not_have)
    apply (simp add: assms)
   apply (rule needles_apart)
  apply (rule needles_apart)
  done

lemma gap_title_13:
  assumes "\<not> have_needle fs ''correction''"
  shows "has_title (fst (ensureMinimumAU rnd k fs rawText)) ''APP 13 correction of personal information''"
  unfolding ensureMinimumAU_def Let_def
  apply (rule step_title_mono)
  apply (rule step_establish_title)
   apply simp
  apply (rule step_not_have)
   apply (rule step_not_have)
    apply (rule step_not_have)
     apply (simp add: assms)
    apply (rule needles_apart)
   apply (rule needles_apart)
  apply (rule needles_apart)
  done

lemma gap_title_retention:
  assumes "\<not> regex_test True retention_rx rawText"
  shows "has_title (fst (ensureMinimumAU rnd k fs rawText)) ''Retention & deletion''"
  unfolding ensureMinimumAU_def Let_def
  apply (rule step_establish_title)
   apply simp
  apply (rule assms)
  done

text \<open>
  Claim C7, amended. For every finding list and text, gap-fill only appends. Afterwards
  each of the needles of APP 5, APP 11, APP 12 and APP 13 is mentioned by some finding,
  and the rule's own finding is present by title whenever no finding mentioned the
  needle before; the retention finding is present by title whenever the text does not
  match the retention pattern.
\<close>

theorem gap_fill_coverage:
  "prefix fs (fst (ensureMinimumAU rnd k fs rawText)) \<and>
   have_needle (fst (ensureMinimumAU rnd k fs rawText)) ''app 5'' \<and>
   have_needle (fst (ensureMinimumAU rnd k fs rawText)) ''app 11'' \<and>
   have_needle (fst (ensureMinimumAU rnd k fs rawText)) ''access to personal'' \<and>
   have_needle (fst (ensureMinimumAU rnd k fs rawText)) ''correction'' \<and>
   (\<not> have_needle fs ''app 5'' \<longrightarrow>
      has_title (fst (ensureMinimumAU rnd k fs rawText)) ''APP 5 collection notice'') \<and>
   (\<not> have_needle fs ''app 11'' \<longrightarrow>
      has_title (fst (ensureMinimumAU rnd k fs rawText)) ''APP 11 security of personal information'') \<and>
   (\<not> have_needle fs ''access to personal'' \<longrightarrow>
      has_title (fst (ensureMinimumAU rnd k fs rawText)) ''APP 12 access to personal information'') \<and>
   (\<not> have_needle fs ''correction'' \<longrightarrow>
      has_title (fst (ensureMinimumAU rnd k fs rawText)) ''APP 13 correction of personal information'') \<and>
   (\<not> regex_test True retention_rx rawText \<longrightarrow>
      has_title (fst (ensureMinimumAU rnd k fs rawText)) ''Retention & deletion'')"
proof (intro conjI impI)
  show "prefix fs (fst (ensureMinimumAU rnd k fs rawText))"
    by (rule gap_prefix)
  show "have_needle (fst (ensureMinimumAU rnd k fs rawText)) ''app 5''"
    by (rule gap_have_5)
  show "have_needle (fst (ensureMinimumAU rnd k fs rawText)) ''app 11''"
    by (rule gap_have_11)
  show "have_needle (fst (ensureMinimumAU rnd k fs rawText)) ''access to personal''"
    by (rule gap_have_12)
  show "have_needle (fst (ensureMinimumAU rnd k fs rawText)) ''correction''"
    by (rule gap_have_13)
next
  assume "\<not> have_needle fs ''app 5''"
  then show "has_title (fst (ensureMinimumAU rnd k fs rawText)) ''APP 5 collection notice''"
    by (rule gap_title_5)
next
  assume "\<not> have_needle fs ''app 11''"
  then show "has_title (fst (ensureMinimumAU rnd k fs rawText)) ''APP 11 security of personal information''"
    by (rule gap_title_11)
next
  assume "\<not> have_needle fs ''access to personal''"
  then show "has_title (fst (ensureMinimumAU rnd k fs rawText)) ''APP 12 access to personal information''"
    by (rule gap_title_12)
next
  assume "\<not> have_needle fs ''correction''"
  then show "has_title (fst (ensureMinimumAU rnd k fs rawText)) ''APP 13 correction of personal information''"
    by (rule gap_title_13)
next
  assume "\<not> regex_test True retention_rx rawText"
  then show "has_title (fst (ensureMinimumAU rnd k fs rawText)) ''Retention & deletion''"
    by (rule gap_title_retention)
qed

lemma gap_example_facts:
  "\<not> have_needle [bare\<lparr>theme := Some ''security_e8'', title := Some ''MFA not described''\<rparr>] ''app 5''"
  "\<not> have_needle [bare\<lparr>theme := Some ''security_e8'', title := Some ''MFA not described''\<rparr>] ''app 11''"
  "\<not> have_needle [bare\<lparr>theme := Some ''security_e8'', title := Some ''MFA not described''\<rparr>] ''access to personal''"
  "\<not> have_needle [bare\<lparr>theme := Some ''security_e8'', title := Some ''MFA not described''\<rparr>] ''correction''"
  "\<not> regex_test True retention_rx []"
  by code_simp+

theorem gap_fill_coverage_witness:
  "has_title (fst (ensureMinimumAU decimal 0 [bare\<lparr>theme := Some ''security_e8'', title := Some ''MFA not described''\<rparr>] []))
     ''APP 5 collection notice'' \<and>
   has_title (fst (ensureMinimumAU decimal 0 [bare\<lparr>theme := Some ''security_e8'', title := Some ''MFA not described''\<rparr>] []))
     ''APP 11 security of personal information'' \<and>
   has_title (fst (ensureMinimumAU decimal 0 [bare\<lparr>theme := Some ''security_e8'', title := Some ''MFA not described''\<rparr>] []))
     ''APP 12 access to personal information'' \<and>
   has_title (fst (ensureMinimumAU decimal 0 [bare\<lparr>theme := Some ''security_e8'', title := Some ''MFA not described''\<rparr>] []))
     ''APP 13 correction of personal information'' \<and>
   has_title (fst (ensureMinimumAU decimal 0 [bare\<lparr>theme := Some ''security_e8'', title := Some ''MFA not described''\<rparr>] []))
     ''Retention & deletion''"
  using gap_fill_coverage [of "[bare\<lparr>theme := Some ''security_e8'', title := Some ''MFA not described''\<rparr>]" decimal 0 "[]"]
    gap_example_facts
  by blast

text \<open>
  Claim C7 as stated adds every mandatory finding whose title is absent. A finding titled
  \<^verbatim>\<open>APP 5 notice is incomplete\<close> mentions the needle of APP 5, so the collection-notice
  finding is not added; and on a text that says \<^verbatim>\<open>delete\<close> the retention finding is not
  added.
\<close>

theorem gap_fill_gated:
  "[bare\<lparr>theme := Some ''privacy_app'', title := Some ''APP 5 notice is incomplete''\<rparr>] \<noteq> [] \<and>
   \<not> has_title [bare\<lparr>theme := Some ''privacy_app'', title := Some ''APP 5 notice is incomplete''\<rparr>]
       ''APP 5 collection notice'' \<and>
   \<not> has_title (fst (ensureMinimumAU decimal 0
         [bare\<lparr>theme := Some ''privacy_app'', title := Some ''APP 5 notice is incomplete''\<rparr>] []))
       ''APP 5 collection notice'' \<and>
   \<not> has_title [bare\<lparr>theme := Some ''security_e8'', title := Some ''MFA not described''\<rparr>]
       ''Retention & deletion'' \<and>
   \<not> has_title (fst (ensureMinimumAU decimal 0
         [bare\<lparr>theme := Some ''security_e8'', title := Some ''MFA not described''\<rparr>]
         ''We delete records on request.''))
       ''Retention & deletion''"
  by code_simp

section \<open>The end-to-end scenario\<close>

text \<open>Every pattern of the heuristics and of the floors, tested on the scenario.\<close>

lemma scenario_tests:
  "\<not> regex_test True (seqs [WordB, Lit ''privacy policy'', WordB]) scenario"
  "\<not> regex_test True (seqs [Lit ''how we manage'', Star (Cls Dot), Lit ''personal information'']) scenario"
  "regex_test True (Lit ''we collect'') scenario"
  "\<not> regex_test True (Lit ''why we collect'') scenario"
  "\<not> regex_test True (Lit ''how to contact'') scenario"
  "\<not> regex_test True (Lit ''overseas'') scenario"
  "\<not> regex_test True (Lit ''outside australia'') scenario"
  "\<not> regex_test True (Lit ''cross-border'') scenario"
  "\<not> regex_test True (Lit ''security'') scenario"
  "\<not> regex_test True (Lit ''encryption'') scenario"
  "\<not> regex_test True (Lit ''mfa'') scenario"
  "\<not> regex_test True (Lit ''access control'') scenario"
  "\<not> regex_test True (Lit ''backup'') scenario"
  "\<not> regex_test True (Lit ''patch'') scenario"
  "\<not> regex_test True (Lit ''access your information'') scenario"
  "\<not> regex_test True (Lit ''request access'') scenario"
  "\<not> regex_test True (Lit ''correction'') scenario"
  "\<not> regex_test True (Lit ''correct your information'') scenario"
  "\<not> regex_test True (Lit ''retention'') scenario"
  "\<not> regex_test True (Lit ''retain'') scenario"
  "\<not> regex_test True (Lit ''delete'') scenario"
  "\<not> regex_test True (Lit ''deletion'') scenario"
  "\<not> regex_test True (Lit ''destroy'') scenario"
  "\<not> regex_test True (seqs [Lit ''not'', Star (Cls Dot), Lit ''diagnos'']) scenario"
  "\<not> regex_test True (Lit ''does not diagnos'') scenario"
  "\<not> regex_test True (Lit ''not intended to diagnose'') scenario"
  "\<not> regex_test True (Lit ''clinician'') scenario"
  "\<not> regex_test True (Lit ''health professional'') scenario"
  "\<not> regex_test True (Lit ''doctor review'') scenario"
  "\<not> regex_test True (Lit ''transparent'') scenario"
  "\<not> regex_test True (Lit ''rules'') scenario"
  "\<not> regex_test True (Lit ''guideline'') scenario"
  "\<not> regex_test True (Lit ''threshold'') scenario"
  "\<not> regex_test True (Lit ''patient'') scenario"
  "\<not> regex_test True (Lit ''educational'') scenario"
  "\<not> regex_test True (Lit ''read-only'') scenario"
  "\<not> regex_test True (Lit ''non-directive'') scenario"
  "\<not> regex_test True (Lit ''not intended'') scenario"
  "\<not> regex_test True (Lit ''not for triage'') scenario"
  "\<not> regex_test True (Lit ''not for emergency'') scenario"
  "\<not> regex_test True (alts [seqs [WordB, Lit ''privacy policy'', WordB], Lit ''privacy act'', Lit ''personal information'', seqs [Lit ''app'', Star (Cls Space), Plus (Cls Digit)]]) scenario"
  "regex_test True (alts [Lit ''we collect'', Lit ''why we collect'', Lit ''how to contact'', Lit ''access your information'', Lit ''correction'', Lit ''retention'', Lit ''delete'', Lit ''destroy'']) scenario"
  "\<not> regex_test True (alts [Lit ''encryption'', Lit ''mfa'', Lit ''2fa'', Lit ''access control'', Lit ''least privilege'', Lit ''backup'', Lit ''patch'', Lit ''incident'', Lit ''macro'', Lit ''hardening'', Lit ''rbac'']) scenario"
  "\<not> regex_test True (alts [Lit ''not intended to diagnose'', Lit ''does not diagnose'', Lit ''clinician'', Lit ''health professional'', Lit ''doctor review'']) scenario"
  "\<not> regex_test True (alts [Lit ''educational'', Lit ''read-only'', Lit ''non-directive'', Lit ''guideline'', Lit ''threshold'', Lit ''transparent'']) scenario"
  "\<not> regex_test True (alts [Lit ''limitation of liability'', Lit ''liability is limited'', Lit ''indemnity'', Lit ''indemnify'', Lit ''arbitration'', Lit ''governing law'', Lit ''termination'', Lit ''unilateral'', Lit ''class action'']) scenario"
  "\<not> regex_test True (alts [seqs [Lit ''third part'', Alt (Lit ''y'') (Lit ''ies'')], Lit ''vendors'', Lit ''processors'', Lit ''sub-processor'', Lit ''share'', Lit ''disclose'', Lit ''stripe'', Lit ''aws'', Lit ''google'', Lit ''overseas'', Lit ''outside australia'', Lit ''cross-border'']) scenario"
  "\<not> regex_test True (seqs [Alt (Lit ''patch'') (Lit ''update''), Star (Cls Dot), Alt (Lit ''application'') (Lit ''app'')]) scenario"
  "\<not> regex_test True (seqs [Alt (Lit ''patch'') (Lit ''update''), Star (Cls Dot), Alt (Lit ''operating system'') (Lit ''os'')]) scenario"
  "\<not> regex_test True (Lit ''macro'') scenario"
  "\<not> regex_test True (alts [Lit ''hardening'', Lit ''blocklist'', Lit ''disable'']) scenario"
  "\<not> regex_test True (alts [seqs [Lit ''admin'', Opt (Lit ''istrative''), Plus (Cls Space), Lit ''privilege''], Lit ''least privilege'', Lit ''rbac'']) scenario"
  "\<not> regex_test True (alts [seqs [Lit ''multi'', Opt (Lit ''-''), Lit ''factor''], Lit ''mfa'', Lit ''2fa'']) scenario"
  "\<not> regex_test True (Lit ''backup'') scenario"
  "\<not> regex_test True (alts [Lit ''incident'', Lit ''breach notification'', Lit ''respond'']) scenario"
  by code_simp+

text \<open>The findings of the heuristics on the scenario, whatever the ids drawn.\<close>

lemma scenario_summary:
  "map summary (fst (heuristicsAU rnd k scenario)) =
     [(Some ''privacy_app'', Some ''APP 1 transparency'', Some ''undisclosed'', Some ''medium''),
      (Some ''privacy_app'', Some ''APP 5 collection notice'', Some ''undisclosed'', Some ''high''),
      (Some ''privacy_app'', Some ''APP 8 cross-border disclosures'', Some ''undisclosed'', Some ''medium''),
      (Some ''privacy_app'', Some ''APP 11 security of personal information'', Some ''undisclosed'', Some ''high''),
      (Some ''privacy_app'', Some ''APP 12 access to personal information'', Some ''undisclosed'', Some ''medium''),
      (Some ''privacy_app'', Some ''APP 13 correction of personal information'', Some ''undisclosed'', Some ''medium''),
      (Some ''privacy_app'', Some ''Retention & deletion'', Some ''undisclosed'', Some ''medium''),
      (Some ''security_e8'', Some ''Essential Eight: Patch applications'', Some ''undisclosed'', Some ''low''),
      (Some ''security_e8'', Some ''Essential Eight: Patch operating systems'', Some ''undisclosed'', Some ''low''),
      (Some ''security_e8'', Some ''Essential Eight: Configure Microsoft Office macro settings'', Some ''undisclosed'', Some ''low''),
      (Some ''security_e8'', Some ''Essential Eight: User application hardening'', Some ''undisclosed'', Some ''low''),
      (Some ''security_e8'', Some ''Essential Eight: Restrict administrative privileges'', Some ''undisclosed'', Some ''low''),
      (Some ''security_e8'', Some ''Essential Eight: Multi-factor authentication'', Some ''undisclosed'', Some ''low''),
      (Some ''security_e8'', Some ''Essential Eight: Regular backups'', Some ''undisclosed'', Some ''low''),
      (Some ''security_e8'', Some ''Essential Eight: Incident response'', Some ''undisclosed'', Some ''low''),
      (Some ''security_e8'', Some ''Essential Eight posture'', Some ''undisclosed'', Some ''medium''),
      (Some ''cdss_exemption'', Some ''Non-diagnostic disclaimer'', Some ''undisclosed'', Some ''high''),
      (Some ''cdss_exemption'', Some ''Clinician oversight'', Some ''undisclosed'', Some ''high''),
      (Some ''cdss_exemption'', Some ''Transparency of logic'', Some ''undisclosed'', Some ''medium''),
      (Some ''cdss_exemption'', Some ''Scope limitations'', Some ''undisclosed'', Some ''medium'')]"
  by (simp add: heuristicsAU_def privacy_rules_def e8_rules_def cdss_rules_def e8Signals_def
        push_mk_def mk_def summary_def T_def Let_def scenario_tests
      del: seqs.simps alts.simps)

lemma has_undisclosed_iff:
  "has_undisclosed fs th ti \<longleftrightarrow>
   (\<exists>sev. (Some th, Some ti, Some ''undisclosed'', sev) \<in> set (map summary fs))"
  by (force simp: has_undisclosed_def list_ex_iff summary_def)

lemma has_title_summary:
  "has_title fs t \<longleftrightarrow> (\<exists>a c d. (a, Some t, c, d) \<in> set (map summary fs))"
  by (force simp: has_title_iff summary_def)

lemma lower_known:
  "toLowerCase ''high'' = ''high''" "toLowerCase ''medium'' = ''medium''" "toLowerCase ''low'' = ''low''"
  by code_simp+

lemma scenario_plain: "\<forall>f \<in> set (fst (heuristicsAU rnd k scenario)). plain_severity f"
  by (simp add: heuristicsAU_def privacy_rules_def e8_rules_def cdss_rules_def e8Signals_def
        push_mk_def mk_def T_def Let_def scenario_tests plain_severity_def str_or_def
        lower_known objectPrototypeKeys_def
      del: seqs.simps alts.simps)

lemma scenario_penalty: "penaltySum (fst (heuristicsAU rnd k scenario)) ''privacy_app'' = 90"
  by (simp add: heuristicsAU_def privacy_rules_def e8_rules_def cdss_rules_def e8Signals_def
        push_mk_def mk_def T_def Let_def scenario_tests penaltySum_def penalty_of_def str_or_def
        lower_known
      del: seqs.simps alts.simps)

lemma scenario_floor: "soft_floor scenario ''privacy_app'' = 20"
  by code_simp

lemma scenario_score:
  "privacy_app (scores (aggregate w (fst (heuristicsAU rnd k scenario)) plan scenario)) = Number 20"
proof -
  have "category_score (foldl count_finding Map.empty (fst (heuristicsAU rnd k scenario)))
          (detectSoftFloors scenario) ''privacy_app''
        = Number (max (max 0 (100 - penaltySum (fst (heuristicsAU rnd k scenario)) ''privacy_app''))
            (soft_floor scenario ''privacy_app''))"
    by (rule category_score_formula(1) [OF scenario_plain]) (simp add: categoryKeys_def)
  then show ?thesis
    by (simp add: aggregate_def Let_def scenario_penalty scenario_floor)
qed

text \<open>
  Claim C1, amended. On the scenario document the heuristics report, as undisclosed,
  cross-border disclosure, security of personal information, retention, and the four
  domain-exemption rules that fire on absence (non-diagnostic disclaimer, clinician
  oversight, transparency of logic, scope limitations); the patient-facing rule, which
  fires on the presence of \<^verbatim>\<open>patient\<close>, reports nothing; the collection-notice rule does
  report, since the text has \<^verbatim>\<open>we collect\<close> but neither \<^verbatim>\<open>why we collect\<close> nor
  \<^verbatim>\<open>how to contact\<close>; and the privacy score is 20, below 100.
\<close>

theorem scenario_findings:
  "has_undisclosed (fst (heuristicsAU rnd k scenario)) ''privacy_app'' ''APP 8 cross-border disclosures'' \<and>
   has_undisclosed (fst (heuristicsAU rnd k scenario)) ''privacy_app'' ''APP 11 security of personal information'' \<and>
   has_undisclosed (fst (heuristicsAU rnd k scenario)) ''privacy_app'' ''Retention & deletion'' \<and>
   has_undisclosed (fst (heuristicsAU rnd k scenario)) ''cdss_exemption'' ''Non-diagnostic disclaimer'' \<and>
   has_undisclosed (fst (heuristicsAU rnd k scenario)) ''cdss_exemption'' ''Clinician oversight'' \<and>
   has_undisclosed (fst (heuristicsAU rnd k scenario)) ''cdss_exemption'' ''Transparency of logic'' \<and>
   has_undisclosed (fst (heuristicsAU rnd k scenario)) ''cdss_exemption'' ''Scope limitations'' \<and>
   \<not> has_title (fst (heuristicsAU rnd k scenario)) ''Patient-facing mode disclaimer'' \<and>
   has_undisclosed (fst (heuristicsAU rnd k scenario)) ''privacy_app'' ''APP 5 collection notice'' \<and>
   privacy_app (scores (aggregate w (fst (heuristicsAU rnd k scenario)) plan scenario)) = Number 20"
proof (intro conjI)
  show "privacy_app (scores (aggregate w (fst (heuristicsAU rnd k scenario)) plan scenario)) = Number 20"
    by (rule scenario_score)
qed (simp_all add: has_undisclosed_iff has_title_summary scenario_summary)

theorem scenario_findings_witness:
  "has_undisclosed (fst (heuristicsAU decimal 0 scenario)) ''privacy_app'' ''APP 5 collection notice'' \<and>
   privacy_app (scores (aggregate config_weights (fst (heuristicsAU decimal 0 scenario)) [] scenario)) = Number 20"
  using scenario_findings [of decimal 0 config_weights "[]"] by blast

text \<open>
  Claim C1 as stated has no finding of the collection-notice rule and a finding of every
  domain-exemption rule. The collection-notice rule fires unless all three of its phrases
  occur, and the patient-facing rule fires only where \<^verbatim>\<open>patient\<close> occurs.
\<close>

theorem scenario_collection_notice_fires:
  "regex_test True (Lit ''we collect'') scenario \<and>
   \<not> regex_test True (Lit ''why we collect'') scenario \<and>
   \<not> regex_test True (Lit ''how to contact'') scenario \<and>
   has_title (fst (heuristicsAU decimal 0 scenario)) ''APP 5 collection notice'' \<and>
   \<not> regex_test True (Lit ''patient'') scenario \<and>
   \<not> has_title (fst (heuristicsAU decimal 0 scenario)) ''Patient-facing mode disclaimer''"
  by code_simp

end
